theory Spec2Isabelle
  imports Complex_Main "HOL-Library.Log_Nat"
begin

section \<open>Data model\<close>

text \<open>
  The whale-consensus detector of \<^verbatim>\<open>src/services/WhaleConsensusMonitor.ts\<close> (class
  \<^verbatim>\<open>WhaleConsensusMonitor\<close>, called the base monitor below) and its variant with market and
  social data (class \<^verbatim>\<open>EnhancedUltraFastWhaleMonitor\<close> with \<^verbatim>\<open>EnhancedTelegramBot\<close>, called the
  enhanced monitor).

  Conventions of the embedding:
  \<^item> a JavaScript number holding an amount of money is a finite double, which is a rational
    (\<^typ>\<open>rat\<close>); a product and a quotient are rounded to the nearest double as IEEE 754
    does (\<open>js_mul\<close> and \<open>js_div\<close> below), while the sums of amounts are taken exactly: no
    statement below equates a total with a product;
  \<^item> a \<^verbatim>\<open>Date\<close> is the integer \<^verbatim>\<open>getTime()\<close> returns (milliseconds); where the source can build
    an Invalid Date (\<^verbatim>\<open>Math.min()\<close> of no arguments) the value is an \<^typ>\<open>int option\<close> and
    \<^term>\<open>None\<close> stands for the date whose \<^verbatim>\<open>getTime()\<close> is NaN;
  \<^item> \<^verbatim>\<open>Date.now()\<close> is a parameter \<open>currentTime\<close> of the function that reads it;
  \<^item> a JavaScript \<^verbatim>\<open>Map\<close> is an association list in insertion order with distinct keys;
  \<^item> display-only fields (\<^verbatim>\<open>tokenSymbol\<close>, \<^verbatim>\<open>tokenName\<close>, \<^verbatim>\<open>transactionType\<close>, the social
    fields) are left out: no decision of the detector reads them.
\<close>

record TokenPurchase =
  walletAddress :: string
  walletName :: "string option"
  tokenMint :: string
  amountSol :: rat
  amountUsd :: rat
  signature :: string
  timestamp :: int

record WhaleConsensus =
  tokenMint :: string
  whales :: "TokenPurchase list"
  totalWhales :: nat
  totalAmountSol :: rat
  totalAmountUsd :: rat
  firstPurchaseTime :: "int option"
  lastPurchaseTime :: "int option"
  consensusStrength :: rat

record TokenMarketData =
  marketCap :: "rat option"
  price :: "rat option"
  volume24h :: "rat option"
  liquidity :: "rat option"

record EnhancedWhaleConsensus = WhaleConsensus +
  marketData :: "TokenMarketData option"

record RiskScore =
  level :: string
  score :: int
  assessment :: string

record TradingSignal =
  type :: string
  confidence :: int
  recommendation :: string

section \<open>JavaScript arithmetic on the edge cases\<close>

text \<open>\<^verbatim>\<open>last.getTime() - first.getTime()\<close>: NaN as soon as one date is invalid.\<close>

definition timeSpanOf :: "int option \<Rightarrow> int option \<Rightarrow> int option" where
  "timeSpanOf lastT firstT =
     (case lastT of None \<Rightarrow> None
      | Some l \<Rightarrow> (case firstT of None \<Rightarrow> None | Some f \<Rightarrow> Some (l - f)))"

text \<open>\<^verbatim>\<open>timeSpan <= bound\<close>: a comparison with NaN is false.\<close>

definition span_le :: "int option \<Rightarrow> int \<Rightarrow> bool" where
  "span_le s bound = (case s of None \<Rightarrow> False | Some d \<Rightarrow> d \<le> bound)"

section \<open>Products and quotients of doubles\<close>

text \<open>
  A finite double is \<open>m * 2 ^ e\<close> with an integer \<open>m\<close>, \<open>\<bar>m\<bar> < 2 ^ 53\<close>, and \<open>e \<ge> - 1074\<close>.
  \<^verbatim>\<open>a * b\<close> and \<^verbatim>\<open>a / b\<close> on doubles are the exact product and quotient rounded to the
  nearest double, ties to the even significand (IEEE 754 binary64, which ECMAScript
  prescribes). A result beyond the largest finite double, which JavaScript turns to
  \<^verbatim>\<open>Infinity\<close>, is not modelled: an amount of SOL times a price in USD is far below it. The
  quotient by zero is treated where it occurs.
\<close>

definition pow2 :: "int \<Rightarrow> rat" where
  "pow2 e = (if 0 \<le> e then 2 ^ nat e else 1 / 2 ^ nat (- e))"

text \<open>Rounding to the nearest integer, a tie going to the even one.\<close>

definition round_half_even :: "rat \<Rightarrow> int" where
  "round_half_even x =
     (let f = \<lfloor>x\<rfloor>; d = x - of_int f
      in if d < 1 / 2 then f else if 1 / 2 < d then f + 1 else if even f then f else f + 1)"

text \<open>
  The binary exponent of a positive rational \<open>x\<close>, that is the \<open>e\<close> with
  \<open>2 ^ e \<le> x < 2 ^ (e + 1)\<close>, from the bit lengths of its numerator and denominator.
\<close>

definition binade :: "rat \<Rightarrow> int" where
  "binade x =
     (let e0 = bitlen (fst (quotient_of x)) - bitlen (snd (quotient_of x))
      in if pow2 e0 \<le> x then e0 else e0 - 1)"

text \<open>
  The nearest double: the spacing of the doubles around \<open>x\<close> is \<open>2 ^ (binade \<bar>x\<bar> - 52)\<close>,
  and \<open>2 ^ (- 1074)\<close> among the subnormal ones.
\<close>

definition to_double :: "rat \<Rightarrow> rat" where
  "to_double x =
     (if x = 0 then 0
      else (let u = pow2 (max (binade \<bar>x\<bar> - 52) (- 1074))
            in of_int (round_half_even (x / u)) * u))"

definition js_mul :: "rat \<Rightarrow> rat \<Rightarrow> rat" where
  "js_mul a b = to_double (a * b)"

definition js_div :: "rat \<Rightarrow> rat \<Rightarrow> rat" where
  "js_div a b = to_double (a / b)"

text \<open>
  \<^verbatim>\<open>total / count >= bound\<close> for a positive \<open>bound\<close>: with \<open>count = 0\<close> the quotient is
  \<^verbatim>\<open>Infinity\<close> for a positive total (the comparison holds) and \<^verbatim>\<open>NaN\<close> or \<^verbatim>\<open>-Infinity\<close>
  otherwise (it fails).
\<close>

definition avg_ge :: "rat \<Rightarrow> nat \<Rightarrow> rat \<Rightarrow> bool" where
  "avg_ge amount n bound =
     (if n = 0 then 0 < amount else bound \<le> js_div amount (of_nat n))"

section \<open>ConsensusScorer: the base monitor\<close>



text \<open>
  \<^verbatim>\<open>generateTradingSignal\<close>, WhaleConsensusMonitor.ts lines 721-755: the confidence (lines
  722-738) and the type read off it (lines 740-754).
\<close>

definition signalConfidence :: "'a WhaleConsensus_scheme \<Rightarrow> int" where
  "signalConfidence consensus =
     (let c1 = 50 + int (totalWhales consensus) * 10;
          c2 = c1 + (if avg_ge (totalAmountUsd consensus) (totalWhales consensus) 2000 then 20
                     else if avg_ge (totalAmountUsd consensus) (totalWhales consensus) 1000 then 10
                     else 0);
          timeSpan = timeSpanOf (lastPurchaseTime consensus) (firstPurchaseTime consensus);
          c3 = c2 + (if span_le timeSpan (5 * 60 * 1000) then 15
                     else if span_le timeSpan (15 * 60 * 1000) then 10 else 0)
      in min c3 95)"

definition generateTradingSignal :: "'a WhaleConsensus_scheme \<Rightarrow> TradingSignal" where
  "generateTradingSignal consensus =
     (let c = signalConfidence consensus
      in if 80 \<le> c then
           \<lparr> type = ''STRONG BUY'', confidence = c,
             recommendation =
               ''Consider immediate purchase - Multiple whales showing strong conviction'' \<rparr>
         else if 70 \<le> c then
           \<lparr> type = ''BUY'', confidence = c,
             recommendation = ''Good buying opportunity - Whale consensus detected'' \<rparr>
         else if 60 \<le> c then
           \<lparr> type = ''WEAK BUY'', confidence = c,
             recommendation = ''Monitor closely - Some whale interest detected'' \<rparr>
         else
           \<lparr> type = ''HOLD'', confidence = c, recommendation = ''Monitor position'' \<rparr>)"

section \<open>ConsensusScorer: the enhanced monitor\<close>

text \<open>
  \<^verbatim>\<open>calculateRiskScore\<close> of \<^verbatim>\<open>EnhancedTelegramBot\<close> (monitor-no-db.ts, unnamed/part_006 lines
  1089-1120), which returns no assessment. \<^verbatim>\<open>md.marketCap && md.marketCap >= 10000000\<close>
  needs the field present; an absent field, \<^verbatim>\<open>null\<close> market data and a plain
  \<^verbatim>\<open>WhaleConsensus\<close> give no bonus.
\<close>

definition field_ge :: "rat option \<Rightarrow> rat \<Rightarrow> bool" where
  "field_ge v bound = (case v of None \<Rightarrow> False | Some x \<Rightarrow> bound \<le> x)"

definition riskPoints_enhanced :: "'a EnhancedWhaleConsensus_scheme \<Rightarrow> int" where
  "riskPoints_enhanced consensus =
     (let s1 = (if 5 \<le> totalWhales consensus then 30
                else if 3 \<le> totalWhales consensus then 20 else 10);
          s2 = s1 + (if 10000 \<le> totalAmountUsd consensus then 30
                     else if 5000 \<le> totalAmountUsd consensus then 20 else 10);
          timeSpan = timeSpanOf (lastPurchaseTime consensus) (firstPurchaseTime consensus);
          s3 = s2 + (if span_le timeSpan (5 * 60 * 1000) then 30
                     else if span_le timeSpan (15 * 60 * 1000) then 20 else 10)
      in case marketData consensus of
           None \<Rightarrow> s3
         | Some md \<Rightarrow>
             s3 + (if field_ge (marketCap md) 10000000 then 10 else 0)
                + (if field_ge (liquidity md) 100000 then 10 else 0)
                + (if field_ge (volume24h md) 100000 then 5 else 0))"

definition calculateRiskScore_enhanced :: "'a EnhancedWhaleConsensus_scheme \<Rightarrow> RiskScore" where
  "calculateRiskScore_enhanced consensus =
     (let s = riskPoints_enhanced consensus
      in \<lparr> level = (if 90 \<le> s then ''EXTREME''
                   else if 80 \<le> s then ''VERY HIGH''
                   else if 60 \<le> s then ''HIGH''
                   else if 40 \<le> s then ''MEDIUM'' else ''LOW''),
           score = s, assessment = [] \<rparr>)"

section \<open>Detector state\<close>

record ManualWallet =
  address :: string
  name :: string
  description :: string
  enabled :: bool

record Settings =
  minPurchaseUsd :: rat
  checkIntervalSeconds :: int
  enableQualifiedWallets :: bool
  enableManualWallets :: bool
  minWhalesForConsensus :: int

record ManualWalletsConfig =
  manualWallets :: "ManualWallet list"
  settings :: Settings

text \<open>
  The fields of the monitor classes that detection reads or writes. \<open>alerts\<close> is not a
  field of the source: it records, in order, every consensus handed to the alert sink
  (\<^verbatim>\<open>triggerWhaleConsensusAlert\<close>, \<^verbatim>\<open>triggerEnhancedConsensusWithSocialMedia\<close>). The type
  parameter is the consensus type of the variant.
\<close>

record 'c Monitor =
  MIN_PURCHASE_USD :: rat
  CHECK_INTERVAL :: int
  MIN_WHALES_FOR_CONSENSUS :: int
  manualWallets :: "ManualWallet list"
  recentWhalePurchases :: "(string \<times> TokenPurchase list) list"
  consensusTimeWindow :: int
  alertedConsensus :: "string set"
  alerts :: "'c list"

text \<open>Field initialisers of \<^verbatim>\<open>WhaleConsensusMonitor\<close> (lines 89-107).\<close>

definition new_monitor :: "WhaleConsensus Monitor" where
  "new_monitor =
     \<lparr> MIN_PURCHASE_USD = 50, CHECK_INTERVAL = 30000, MIN_WHALES_FOR_CONSENSUS = 2,
       manualWallets = [], recentWhalePurchases = [],
       consensusTimeWindow = 15 * 60 * 1000, alertedConsensus = {}, alerts = [] \<rparr>"

text \<open>Field initialisers of \<^verbatim>\<open>EnhancedUltraFastWhaleMonitor\<close> (part_006 lines 1253-1264).\<close>

definition new_monitor_enhanced :: "EnhancedWhaleConsensus Monitor" where
  "new_monitor_enhanced =
     \<lparr> MIN_PURCHASE_USD = 50, CHECK_INTERVAL = 10000, MIN_WHALES_FOR_CONSENSUS = 2,
       manualWallets = [], recentWhalePurchases = [],
       consensusTimeWindow = 30 * 60 * 1000, alertedConsensus = {}, alerts = [] \<rparr>"

section \<open>Loading the configuration\<close>

text \<open>
  What \<^verbatim>\<open>manualWallets.json\<close> holds when \<^verbatim>\<open>loadManualWallets\<close> runs: no file, a file that
  cannot be read or parsed (the \<^verbatim>\<open>catch\<close> branch), or a configuration.
\<close>

datatype config_file = Missing | Unreadable | Parsed ManualWalletsConfig

text \<open>\<^verbatim>\<open>value || fallback\<close> on a number: 0 is falsy, every other integer is truthy.\<close>

definition js_or :: "int \<Rightarrow> int \<Rightarrow> int" where
  "js_or v fallback = (if v = 0 then fallback else v)"

definition apply_config ::
  "int \<Rightarrow> ManualWalletsConfig \<Rightarrow> ('c, 'z) Monitor_scheme \<Rightarrow> ('c, 'z) Monitor_scheme" where
  "apply_config minInterval config m =
     m\<lparr> MIN_PURCHASE_USD := minPurchaseUsd (settings config),
        CHECK_INTERVAL := max (checkIntervalSeconds (settings config) * 1000) minInterval,
        MIN_WHALES_FOR_CONSENSUS := js_or (minWhalesForConsensus (settings config)) 2,
        Monitor.manualWallets := filter enabled (ManualWalletsConfig.manualWallets config) \<rparr>"

text \<open>The configuration the base monitor writes when the file is missing (lines 209-218).\<close>

definition defaultConfig :: ManualWalletsConfig where
  "defaultConfig =
     \<lparr> ManualWalletsConfig.manualWallets = [],
       settings = \<lparr> minPurchaseUsd = 50, checkIntervalSeconds = 30,
                    enableQualifiedWallets = True, enableManualWallets = True,
                    minWhalesForConsensus = 2 \<rparr> \<rparr>"

text \<open>
  \<^verbatim>\<open>loadManualWallets\<close> of the base monitor (lines 204-239): a missing file is first created
  with the default configuration and then read like any other.
\<close>

definition loadManualWallets ::
  "config_file \<Rightarrow> ('c, 'z) Monitor_scheme \<Rightarrow> ('c, 'z) Monitor_scheme" where
  "loadManualWallets file m =
     (case file of
        Missing \<Rightarrow> apply_config 30000 defaultConfig m
      | Unreadable \<Rightarrow> m\<lparr> Monitor.manualWallets := [] \<rparr>
      | Parsed config \<Rightarrow> apply_config 30000 config m)"

text \<open>
  \<^verbatim>\<open>loadManualWallets\<close> of the enhanced monitor (part_006 lines 1386-1418): a missing file is
  created and the method returns without reading it; the floor of the interval is 10000 ms.
\<close>

definition loadManualWallets_enhanced ::
  "config_file \<Rightarrow> ('c, 'z) Monitor_scheme \<Rightarrow> ('c, 'z) Monitor_scheme" where
  "loadManualWallets_enhanced file m =
     (case file of
        Missing \<Rightarrow> m
      | Unreadable \<Rightarrow> m\<lparr> Monitor.manualWallets := [] \<rparr>
      | Parsed config \<Rightarrow> apply_config 10000 config m)"

section \<open>ConsensusWindow: insertion and expiry\<close>

text \<open>\<^verbatim>\<open>Map.has\<close> and \<^verbatim>\<open>Map.set\<close>: a new key goes to the end, an old key keeps its place.\<close>

definition map_has :: "'k \<Rightarrow> ('k \<times> 'v) list \<Rightarrow> bool" where
  "map_has k m = (map_of m k \<noteq> None)"

fun map_set :: "'k \<Rightarrow> 'v \<Rightarrow> ('k \<times> 'v) list \<Rightarrow> ('k \<times> 'v) list" where
  "map_set k v [] = [(k, v)]"
| "map_set k v ((k', v') # m) = (if k' = k then (k, v) # m else (k', v') # map_set k v m)"

text \<open>The filter predicate \<^verbatim>\<open>(currentTime - p.timestamp.getTime()) <= this.consensusTimeWindow\<close>.\<close>

definition within_window :: "int \<Rightarrow> int \<Rightarrow> TokenPurchase \<Rightarrow> bool" where
  "within_window currentTime window p = (currentTime - timestamp p \<le> window)"

text \<open>
  The body of the \<^verbatim>\<open>forEach\<close> of \<^verbatim>\<open>addPurchasesToConsensusTracking\<close> (lines 444-462): the
  purchase is pushed onto the array stored for its token, and the filtered copy replaces
  that array. (The \<open>None\<close> branch is the source's \<^verbatim>\<open>get(tokenMint)!\<close>; the key was just set.)
\<close>

definition track_purchase ::
  "int \<Rightarrow> int \<Rightarrow> (string \<times> TokenPurchase list) list \<Rightarrow> TokenPurchase
     \<Rightarrow> (string \<times> TokenPurchase list) list" where
  "track_purchase currentTime window m purchase =
     (let mint = TokenPurchase.tokenMint purchase;
          m1 = (if map_has mint m then m else map_set mint [] m);
          tokenPurchases = (case map_of m1 mint of None \<Rightarrow> [] | Some ps \<Rightarrow> ps) @ [purchase];
          filteredPurchases = filter (within_window currentTime window) tokenPurchases
      in map_set mint filteredPurchases m1)"

text \<open>
  \<^verbatim>\<open>addPurchasesToConsensusTracking\<close>; \<^verbatim>\<open>addEnhancedPurchasesToConsensusTracking\<close> (part_006
  lines 2518-2537) is the same text.
\<close>

definition addPurchasesToConsensusTracking ::
  "int \<Rightarrow> TokenPurchase list \<Rightarrow> ('c, 'z) Monitor_scheme \<Rightarrow> ('c, 'z) Monitor_scheme" where
  "addPurchasesToConsensusTracking currentTime purchases m =
     m\<lparr> recentWhalePurchases :=
          foldl (track_purchase currentTime (consensusTimeWindow m))
            (recentWhalePurchases m) purchases \<rparr>"

section \<open>ConsensusWindow: unique whales\<close>

text \<open>
  Lines 480-487: a \<^verbatim>\<open>Map\<close> from wallet address to purchase, filled only where the wallet is
  not yet a key, then \<^verbatim>\<open>Array.from(uniqueWhales.values())\<close>.
\<close>

definition uniqueWhales :: "TokenPurchase list \<Rightarrow> (string \<times> TokenPurchase) list" where
  "uniqueWhales recentPurchases =
     foldl (\<lambda>u purchase.
              if map_has (walletAddress purchase) u then u
              else map_set (walletAddress purchase) purchase u)
       [] recentPurchases"

definition uniquePurchasesOf :: "TokenPurchase list \<Rightarrow> TokenPurchase list" where
  "uniquePurchasesOf recentPurchases = map snd (uniqueWhales recentPurchases)"

text \<open>
  The enhanced monitor (part_006 lines 2550-2562) stores a copy of the purchase whose
  \<^verbatim>\<open>amountUsd\<close> is recomputed from the price handed to the evaluation.
\<close>

definition uniqueWhales_enhanced ::
  "rat \<Rightarrow> TokenPurchase list \<Rightarrow> (string \<times> TokenPurchase) list" where
  "uniqueWhales_enhanced currentSolPrice recentPurchases =
     foldl (\<lambda>u purchase.
              if map_has (walletAddress purchase) u then u
              else map_set (walletAddress purchase)
                     (purchase\<lparr> amountUsd := js_mul (amountSol purchase) currentSolPrice \<rparr>) u)
       [] recentPurchases"

definition uniquePurchasesOf_enhanced :: "rat \<Rightarrow> TokenPurchase list \<Rightarrow> TokenPurchase list" where
  "uniquePurchasesOf_enhanced currentSolPrice recentPurchases =
     map snd (uniqueWhales_enhanced currentSolPrice recentPurchases)"

section \<open>ConsensusDetector: aggregates\<close>

text \<open>
  \<^verbatim>\<open>Math.min(...timestamps)\<close> and \<^verbatim>\<open>Math.max(...timestamps)\<close> wrapped in \<^verbatim>\<open>new Date\<close>: with no
  argument they are \<^verbatim>\<open>Infinity\<close> and \<^verbatim>\<open>-Infinity\<close>, and the date is invalid.
\<close>

definition Math_min :: "int list \<Rightarrow> int option" where
  "Math_min xs = (case xs of [] \<Rightarrow> None | x # rest \<Rightarrow> Some (foldl min x rest))"

definition Math_max :: "int list \<Rightarrow> int option" where
  "Math_max xs = (case xs of [] \<Rightarrow> None | x # rest \<Rightarrow> Some (foldl max x rest))"

text \<open>Lines 495-515 of \<^verbatim>\<open>analyzeWhaleConsensus\<close>: the metrics of one qualifying token.\<close>

definition buildConsensus :: "string \<Rightarrow> TokenPurchase list \<Rightarrow> WhaleConsensus" where
  "buildConsensus mint uniquePurchases =
     (let totalSol = foldl (\<lambda>sum p. sum + amountSol p) 0 uniquePurchases;
          totalUsd = foldl (\<lambda>sum p. sum + amountUsd p) 0 uniquePurchases;
          timestamps = map timestamp uniquePurchases
      in \<lparr> tokenMint = mint, whales = uniquePurchases,
           totalWhales = length uniquePurchases,
           totalAmountSol = totalSol, totalAmountUsd = totalUsd,
           firstPurchaseTime = Math_min timestamps, lastPurchaseTime = Math_max timestamps,
           consensusStrength = of_nat (length uniquePurchases) * 100 + totalUsd \<rparr>)"

text \<open>The same metrics with the market data the enhanced monitor attaches.\<close>

definition buildConsensus_enhanced ::
  "TokenMarketData option \<Rightarrow> string \<Rightarrow> TokenPurchase list \<Rightarrow> EnhancedWhaleConsensus" where
  "buildConsensus_enhanced md mint uniquePurchases =
     (let totalSol = foldl (\<lambda>sum p. sum + amountSol p) 0 uniquePurchases;
          totalUsd = foldl (\<lambda>sum p. sum + amountUsd p) 0 uniquePurchases;
          timestamps = map timestamp uniquePurchases
      in \<lparr> tokenMint = mint, whales = uniquePurchases,
           totalWhales = length uniquePurchases,
           totalAmountSol = totalSol, totalAmountUsd = totalUsd,
           firstPurchaseTime = Math_min timestamps, lastPurchaseTime = Math_max timestamps,
           consensusStrength = of_nat (length uniquePurchases) * 100 + totalUsd,
           marketData = md \<rparr>)"

text \<open>
  The first loop of \<^verbatim>\<open>analyzeWhaleConsensus\<close> (lines 473-519) on one entry of
  \<^verbatim>\<open>recentWhalePurchases\<close>: the consensus it pushes, if any.
\<close>

definition consensusOfEntry ::
  "int \<Rightarrow> int \<Rightarrow> int \<Rightarrow> string \<times> TokenPurchase list \<Rightarrow> WhaleConsensus list" where
  "consensusOfEntry currentTime window minWhales entry =
     (let recentPurchases = filter (within_window currentTime window) (snd entry);
          uniquePurchases = uniquePurchasesOf recentPurchases
      in if minWhales \<le> int (length uniquePurchases)
         then [buildConsensus (fst entry) uniquePurchases] else [])"

definition consensusTokens :: "int \<Rightarrow> ('c, 'z) Monitor_scheme \<Rightarrow> WhaleConsensus list" where
  "consensusTokens currentTime m =
     concat (map (consensusOfEntry currentTime (consensusTimeWindow m)
                    (MIN_WHALES_FOR_CONSENSUS m))
               (recentWhalePurchases m))"

section \<open>ConsensusDetector: the alert gate\<close>

text \<open>The decimal text of a whale count, as the template literal prints it.\<close>

definition digit_char :: "nat \<Rightarrow> char" where
  "digit_char d =
     (if d = 0 then CHR ''0'' else if d = 1 then CHR ''1'' else if d = 2 then CHR ''2''
      else if d = 3 then CHR ''3'' else if d = 4 then CHR ''4'' else if d = 5 then CHR ''5''
      else if d = 6 then CHR ''6'' else if d = 7 then CHR ''7'' else if d = 8 then CHR ''8''
      else CHR ''9'')"

fun string_of_nat :: "nat \<Rightarrow> string" where
  "string_of_nat n =
     (if n < 10 then [digit_char n] else string_of_nat (n div 10) @ [digit_char (n mod 10)])"

declare string_of_nat.simps [simp del]

text \<open>\<^verbatim>\<open>`${consensus.tokenMint}_${consensus.totalWhales}`\<close>.\<close>

definition signalId :: "string \<Rightarrow> nat \<Rightarrow> string" where
  "signalId mint count = mint @ ''_'' @ string_of_nat count"

definition consensusId :: "'a WhaleConsensus_scheme \<Rightarrow> string" where
  "consensusId consensus = signalId (WhaleConsensus.tokenMint consensus) (totalWhales consensus)"

text \<open>
  The body of the alert loop (lines 525-532, part_006 lines 2621-2628): test the set, add the
  identifier, hand the consensus to the sink. No \<^verbatim>\<open>await\<close> separates the test from the
  insertion, so the step is atomic.
\<close>

definition alertIfNew ::
  "('a WhaleConsensus_scheme, 'z) Monitor_scheme \<Rightarrow> 'a WhaleConsensus_scheme
     \<Rightarrow> ('a WhaleConsensus_scheme, 'z) Monitor_scheme" where
  "alertIfNew m consensus =
     (if consensusId consensus \<in> alertedConsensus m then m
      else m\<lparr> alertedConsensus := insert (consensusId consensus) (alertedConsensus m),
              alerts := alerts m @ [consensus] \<rparr>)"

text \<open>
  \<^verbatim>\<open>consensusTokens.sort((a, b) => b.consensusStrength - a.consensusStrength)\<close>: a stable sort,
  strongest first.
\<close>

definition sortByStrength :: "'a WhaleConsensus_scheme list \<Rightarrow> 'a WhaleConsensus_scheme list" where
  "sortByStrength cs = sort_key (\<lambda>c. - consensusStrength c) cs"

text \<open>\<^verbatim>\<open>analyzeWhaleConsensus\<close> (lines 466-539).\<close>

definition analyzeWhaleConsensus ::
  "int \<Rightarrow> (WhaleConsensus, 'z) Monitor_scheme \<Rightarrow> (WhaleConsensus, 'z) Monitor_scheme" where
  "analyzeWhaleConsensus currentTime m =
     foldl alertIfNew m (sortByStrength (consensusTokens currentTime m))"

section \<open>ConsensusDetector: the enhanced evaluation\<close>

datatype js_error = TypeError

text \<open>
  One entry in the first loop of \<^verbatim>\<open>analyzeEnhancedWhaleConsensus\<close> (part_006 lines 2545-2616).
  A qualifying entry reads \<^verbatim>\<open>uniquePurchases[0].tokenSymbol\<close>, which throws when the list is
  empty (possible only with a minimum below 1). The market data is what
  \<^verbatim>\<open>getTokenMarketData\<close> answers for the token.
\<close>

definition consensusOfEntry_enhanced ::
  "(string \<Rightarrow> TokenMarketData option) \<Rightarrow> int \<Rightarrow> rat \<Rightarrow> int \<Rightarrow> int
     \<Rightarrow> string \<times> TokenPurchase list \<Rightarrow> js_error + EnhancedWhaleConsensus list" where
  "consensusOfEntry_enhanced getTokenMarketData currentTime currentSolPrice window minWhales entry =
     (let recentPurchases = filter (within_window currentTime window) (snd entry);
          uniquePurchases = uniquePurchasesOf_enhanced currentSolPrice recentPurchases
      in if minWhales \<le> int (length uniquePurchases)
         then (case uniquePurchases of
                 [] \<Rightarrow> Inl TypeError
               | firstPurchase # _ \<Rightarrow>
                   Inr [buildConsensus_enhanced (getTokenMarketData (fst entry)) (fst entry)
                          uniquePurchases])
         else Inr [])"

fun collect :: "('a \<Rightarrow> js_error + 'b list) \<Rightarrow> 'a list \<Rightarrow> js_error + 'b list" where
  "collect f [] = Inr []"
| "collect f (x # xs) =
     (case f x of
        Inl e \<Rightarrow> Inl e
      | Inr ys \<Rightarrow> (case collect f xs of Inl e \<Rightarrow> Inl e | Inr zs \<Rightarrow> Inr (ys @ zs)))"

text \<open>
  \<^verbatim>\<open>analyzeEnhancedWhaleConsensus\<close> (part_006 lines 2539-2635). An exception in the first
  loop leaves the method before any alert, with the state as it was.
\<close>

definition analyzeEnhancedWhaleConsensus ::
  "(string \<Rightarrow> TokenMarketData option) \<Rightarrow> int \<Rightarrow> rat
     \<Rightarrow> (EnhancedWhaleConsensus, 'z) Monitor_scheme
     \<Rightarrow> js_error + (EnhancedWhaleConsensus, 'z) Monitor_scheme" where
  "analyzeEnhancedWhaleConsensus getTokenMarketData currentTime currentSolPrice m =
     (case collect (consensusOfEntry_enhanced getTokenMarketData currentTime currentSolPrice
                      (consensusTimeWindow m) (MIN_WHALES_FOR_CONSENSUS m))
             (recentWhalePurchases m) of
        Inl e \<Rightarrow> Inl e
      | Inr tokens \<Rightarrow> Inr (foldl alertIfNew m (sortByStrength tokens)))"

text \<open>
  \<^verbatim>\<open>instantEnhancedConsensusCheck\<close> (part_006 lines 2020-2103), the check scheduled after each
  wallet with purchases. The body of its loop, on one entry: the gate is tested before the
  metrics are built, and the amounts are recomputed after deduplication. With an empty
  qualifying list the identifier is already inserted when \<^verbatim>\<open>uniquePurchases[0].tokenSymbol\<close>
  throws; the exception ends the loop and the insertion stays.
\<close>

definition instantEntry ::
  "(string \<Rightarrow> TokenMarketData option) \<Rightarrow> int \<Rightarrow> rat \<Rightarrow> string \<times> TokenPurchase list
     \<Rightarrow> (EnhancedWhaleConsensus, 'z) Monitor_scheme
     \<Rightarrow> (EnhancedWhaleConsensus, 'z) Monitor_scheme \<times> js_error option" where
  "instantEntry getTokenMarketData currentTime currentSolPrice entry m =
     (let recentPurchases = filter (within_window currentTime (consensusTimeWindow m)) (snd entry);
          uniquePurchases = uniquePurchasesOf recentPurchases
      in if MIN_WHALES_FOR_CONSENSUS m \<le> int (length uniquePurchases) then
           (let ident = signalId (fst entry) (length uniquePurchases)
            in if ident \<in> alertedConsensus m then (m, None)
               else
                 (let m1 = m\<lparr> alertedConsensus := insert ident (alertedConsensus m) \<rparr>
                  in case uniquePurchases of
                       [] \<Rightarrow> (m1, Some TypeError)
                     | firstPurchase # _ \<Rightarrow>
                         (let recalculatedPurchases =
                                map (\<lambda>p. p\<lparr> amountUsd := js_mul (amountSol p) currentSolPrice \<rparr>)
                                  uniquePurchases;
                              enhancedConsensus =
                                buildConsensus_enhanced (getTokenMarketData (fst entry))
                                  (fst entry) recalculatedPurchases
                          in (m1\<lparr> alerts := alerts m1 @ [enhancedConsensus] \<rparr>, None))))
         else (m, None))"

fun instantEntries ::
  "(string \<Rightarrow> TokenMarketData option) \<Rightarrow> int \<Rightarrow> rat \<Rightarrow> (string \<times> TokenPurchase list) list
     \<Rightarrow> (EnhancedWhaleConsensus, 'z) Monitor_scheme
     \<Rightarrow> (EnhancedWhaleConsensus, 'z) Monitor_scheme" where
  "instantEntries getTokenMarketData currentTime currentSolPrice [] m = m"
| "instantEntries getTokenMarketData currentTime currentSolPrice (entry # rest) m =
     (case instantEntry getTokenMarketData currentTime currentSolPrice entry m of
        (m', None) \<Rightarrow> instantEntries getTokenMarketData currentTime currentSolPrice rest m'
      | (m', Some e) \<Rightarrow> m')"

definition instantEnhancedConsensusCheck ::
  "(string \<Rightarrow> TokenMarketData option) \<Rightarrow> int \<Rightarrow> rat
     \<Rightarrow> (EnhancedWhaleConsensus, 'z) Monitor_scheme
     \<Rightarrow> (EnhancedWhaleConsensus, 'z) Monitor_scheme" where
  "instantEnhancedConsensusCheck getTokenMarketData currentTime currentSolPrice m =
     instantEntries getTokenMarketData currentTime currentSolPrice (recentWhalePurchases m) m"

section \<open>The polling cycle of the base monitor\<close>

text \<open>
  What the RPC side yields for one transaction in which the polled wallet's token balance
  rose: the mint, the SOL spent (\<^verbatim>\<open>calculateSolSpent\<close>), the signature and the block time in
  seconds. Reading the chain is outside the detector.
\<close>

record PurchaseTransfer =
  boughtMint :: string
  solSpent :: rat
  txSignature :: string
  blockTime :: int

definition SOL_PRICE_USD :: rat where
  "SOL_PRICE_USD = 200"

text \<open>The event \<^verbatim>\<open>parseRealTokenPurchase\<close> builds (lines 866-887), or \<^verbatim>\<open>null\<close>.\<close>

definition parseRealTokenPurchase ::
  "string \<Rightarrow> string option \<Rightarrow> PurchaseTransfer \<Rightarrow> TokenPurchase option" where
  "parseRealTokenPurchase wallet wname tx =
     (if 0 < solSpent tx then
        Some \<lparr> walletAddress = wallet, walletName = wname, tokenMint = boughtMint tx,
               amountSol = solSpent tx, amountUsd = js_mul (solSpent tx) SOL_PRICE_USD,
               signature = txSignature tx, timestamp = blockTime tx * 1000 \<rparr>
      else None)"


datatype fetch_error = RpcFailure

text \<open>
  \<^verbatim>\<open>checkWalletForConsensus\<close> (lines 385-438): an exception anywhere in the fetch is caught
  and answered with the empty list; otherwise the parsed purchases of at least
  \<^verbatim>\<open>MIN_PURCHASE_USD\<close> are returned. (Which signatures count as recent, by
  \<^verbatim>\<open>lastCheckedTimes\<close>, is part of what the RPC side yields.)
\<close>

definition checkWalletForConsensus ::
  "('c, 'z) Monitor_scheme \<Rightarrow> string \<Rightarrow> string option
     \<Rightarrow> fetch_error + PurchaseTransfer list \<Rightarrow> TokenPurchase list" where
  "checkWalletForConsensus m wallet wname fetched =
     (case fetched of
        Inl e \<Rightarrow> []
      | Inr txs \<Rightarrow>
          filter (\<lambda>p. MIN_PURCHASE_USD m \<le> amountUsd p)
            (List.map_filter (parseRealTokenPurchase wallet wname) txs))"

text \<open>
  One wallet of a cycle: its address, what fetching its transactions gave, and the
  \<^verbatim>\<open>Date.now()\<close> read when its purchases are added.
\<close>

record WalletPoll =
  polledWallet :: string
  fetched :: "fetch_error + PurchaseTransfer list"
  trackedAt :: int

text \<open>The callback of \<^verbatim>\<open>batch.map\<close> in \<^verbatim>\<open>detectWhaleConsensus\<close> (lines 324-351).\<close>

definition pollWallet ::
  "WalletPoll \<Rightarrow> ('c, 'z) Monitor_scheme \<Rightarrow> ('c, 'z) Monitor_scheme" where
  "pollWallet poll m =
     (let manualWallet = find (\<lambda>w. address w = polledWallet poll) (Monitor.manualWallets m);
          walletPurchases =
            checkWalletForConsensus m (polledWallet poll) (map_option name manualWallet)
              (fetched poll)
      in if walletPurchases \<noteq> []
         then addPurchasesToConsensusTracking (trackedAt poll) walletPurchases m
         else m)"

text \<open>
  \<^verbatim>\<open>detectWhaleConsensus\<close> (lines 306-382): the wallets in the order in which their checks
  complete, then the analysis at its own \<^verbatim>\<open>Date.now()\<close>.
\<close>

definition detectWhaleConsensus ::
  "WalletPoll list \<Rightarrow> int \<Rightarrow> (WhaleConsensus, 'z) Monitor_scheme
     \<Rightarrow> (WhaleConsensus, 'z) Monitor_scheme" where
  "detectWhaleConsensus polls analyzeTime m =
     analyzeWhaleConsensus analyzeTime (foldl (\<lambda>m' poll. pollWallet poll m') m polls)"

section \<open>The life of a detector process\<close>

text \<open>
  Everything that changes the detection state of the base monitor, as a sequence of atomic
  events; a polling cycle is a \<open>Cycle\<close>, and \<open>Track\<close> and \<open>Analyze\<close> are its two halves on
  their own (\<^verbatim>\<open>testWalletMonitoring\<close> calls them directly). The alert loop awaits the sink
  between two iterations, and the timer starts a cycle whether or not the previous one has
  ended, so iterations of two evaluations can interleave: \<open>AlertStep\<close> is one iteration on
  its own, on any consensus.
\<close>

datatype event =
  LoadConfig config_file
| Track int "TokenPurchase list"
| Analyze int
| Cycle "WalletPoll list" int
| AlertStep WhaleConsensus

fun step :: "WhaleConsensus Monitor \<Rightarrow> event \<Rightarrow> WhaleConsensus Monitor" where
  "step m (LoadConfig file) = loadManualWallets file m"
| "step m (Track currentTime purchases) = addPurchasesToConsensusTracking currentTime purchases m"
| "step m (Analyze currentTime) = analyzeWhaleConsensus currentTime m"
| "step m (Cycle polls analyzeTime) = detectWhaleConsensus polls analyzeTime m"
| "step m (AlertStep consensus) = alertIfNew m consensus"

definition run :: "event list \<Rightarrow> WhaleConsensus Monitor" where
  "run events = foldl step new_monitor events"

text \<open>
  The same for the enhanced monitor; an evaluation that throws is caught by
  \<^verbatim>\<open>enhancedUltraFastDetectConsensus\<close> and the state stays as it was.
\<close>

datatype event_enhanced =
  LoadConfigE config_file
| TrackE int "TokenPurchase list"
| AnalyzeE "string \<Rightarrow> TokenMarketData option" int rat
| InstantE "string \<Rightarrow> TokenMarketData option" int rat
| AlertStepE EnhancedWhaleConsensus

fun step_enhanced ::
  "EnhancedWhaleConsensus Monitor \<Rightarrow> event_enhanced \<Rightarrow> EnhancedWhaleConsensus Monitor" where
  "step_enhanced m (LoadConfigE file) = loadManualWallets_enhanced file m"
| "step_enhanced m (TrackE currentTime purchases) =
     addPurchasesToConsensusTracking currentTime purchases m"
| "step_enhanced m (AnalyzeE getTokenMarketData currentTime currentSolPrice) =
     (case analyzeEnhancedWhaleConsensus getTokenMarketData currentTime currentSolPrice m of
        Inl e \<Rightarrow> m
      | Inr m' \<Rightarrow> m')"
| "step_enhanced m (InstantE getTokenMarketData currentTime currentSolPrice) =
     instantEnhancedConsensusCheck getTokenMarketData currentTime currentSolPrice m"
| "step_enhanced m (AlertStepE consensus) = alertIfNew m consensus"

definition run_enhanced :: "event_enhanced list \<Rightarrow> EnhancedWhaleConsensus Monitor" where
  "run_enhanced events = foldl step_enhanced new_monitor_enhanced events"

text \<open>The signal of an alert: the pair the identifier is built from.\<close>

definition signalOf :: "'a WhaleConsensus_scheme \<Rightarrow> string \<times> nat" where
  "signalOf consensus = (WhaleConsensus.tokenMint consensus, totalWhales consensus)"

section \<open>The specification's reading of deduplication\<close>

text \<open>
  The specification's \<open>uniqueWhales()\<close>: one event per distinct wallet address, in order of
  first occurrence, the first event of each wallet being its representative.
\<close>

fun firstPerWallet :: "TokenPurchase list \<Rightarrow> TokenPurchase list" where
  "firstPerWallet [] = []"
| "firstPerWallet (p # ps) =
     p # firstPerWallet (filter (\<lambda>q. walletAddress q \<noteq> walletAddress p) ps)"

section \<open>The specification's reading of fresh prices\<close>


section \<open>The invariant of the alert gate\<close>

text \<open>
  The alerts handed to the sink carry pairwise different identifiers, and each of these
  identifiers is in \<^verbatim>\<open>alertedConsensus\<close>.
\<close>

definition gate_ok :: "('a WhaleConsensus_scheme, 'z) Monitor_scheme \<Rightarrow> bool" where
  "gate_ok m \<longleftrightarrow>
     distinct (map consensusId (alerts m))
     \<and> consensusId ` set (alerts m) \<subseteq> alertedConsensus m"

section \<open>Example events\<close>

text \<open>A purchase of \<open>sol\<close> SOL by \<open>wallet\<close> at time \<open>t\<close>, priced at 200 USD per SOL.\<close>

definition whale :: "string \<Rightarrow> string \<Rightarrow> rat \<Rightarrow> int \<Rightarrow> TokenPurchase" where
  "whale wallet mint sol t =
     \<lparr> walletAddress = wallet, walletName = None, tokenMint = mint, amountSol = sol,
       amountUsd = sol * 200, signature = ''sig'', timestamp = t \<rparr>"

text \<open>
  The scenario of the specification: W1 buys T for 100 USD at 0, W2 buys T for 200 USD five
  minutes later.
\<close>

definition example_consensus :: WhaleConsensus where
  "example_consensus =
     buildConsensus ''T'' [whale ''W1'' ''T'' (1/2) 0, whale ''W2'' ''T'' 1 300000]"

text \<open>Five whales buying 10 SOL each within four seconds of a token with a deep market.\<close>

definition example_enhanced :: EnhancedWhaleConsensus where
  "example_enhanced =
     buildConsensus_enhanced
       (Some \<lparr> marketCap = Some 10000000, price = Some 1, volume24h = Some 100000,
                liquidity = Some 100000 \<rparr>)
       ''T''
       [whale ''W1'' ''T'' 10 0, whale ''W2'' ''T'' 10 1000, whale ''W3'' ''T'' 10 2000,
        whale ''W4'' ''T'' 10 3000, whale ''W5'' ''T'' 10 4000]"

text \<open>
  The two purchases of the scenario tracked by the enhanced monitor one second after the
  second purchase, and by the base monitor.
\<close>

definition example_monitor_enhanced :: "EnhancedWhaleConsensus Monitor" where
  "example_monitor_enhanced =
     addPurchasesToConsensusTracking 301000
       [whale ''W1'' ''T'' (1/2) 0, whale ''W2'' ''T'' 1 300000] new_monitor_enhanced"

definition example_monitor :: "WhaleConsensus Monitor" where
  "example_monitor =
     addPurchasesToConsensusTracking 301000
       [whale ''W1'' ''T'' (1/2) 0, whale ''W2'' ''T'' 1 300000] new_monitor"

text \<open>
  A window that empties and refills: W1 and W2 buy T and the consensus of two is alerted;
  half an hour later both events have expired; then W1 and W2 buy T again and the window is
  evaluated once more.
\<close>

definition refill_events :: "event list" where
  "refill_events =
     [Track 301000 [whale ''W1'' ''T'' (1/2) 0, whale ''W2'' ''T'' 1 300000],
      Analyze 302000,
      Analyze 2000000,
      Track 2400000 [whale ''W1'' ''T'' 2 2390000, whale ''W2'' ''T'' 3 2395000],
      Analyze 2401000]"

text \<open>
  A cycle over three wallets: fetching for A fails; B and C each bought T, for 1 and 2 SOL.
\<close>

definition pollA :: WalletPoll where
  "pollA = \<lparr> polledWallet = ''A'', fetched = Inl RpcFailure, trackedAt = 1000 \<rparr>"

definition pollB :: WalletPoll where
  "pollB = \<lparr> polledWallet = ''B'',
             fetched = Inr [\<lparr> boughtMint = ''T'', solSpent = 1, txSignature = ''sig'',
                               blockTime = 1 \<rparr>],
             trackedAt = 2000 \<rparr>"

definition pollC :: WalletPoll where
  "pollC = \<lparr> polledWallet = ''C'',
             fetched = Inr [\<lparr> boughtMint = ''T'', solSpent = 2, txSignature = ''sig'',
                               blockTime = 2 \<rparr>],
             trackedAt = 3000 \<rparr>"


section \<open>Scoring\<close>







lemma js_div_example: "js_div 300 2 = 150"
  by code_simp

lemma riskPoints_enhanced_range:
  "30 \<le> riskPoints_enhanced e \<and> riskPoints_enhanced e \<le> 115"
  by (simp add: riskPoints_enhanced_def Let_def split: option.split)

lemma riskPoints_enhanced_sum:
  "riskPoints_enhanced e =
        (if 5 \<le> totalWhales e then 30 else if 3 \<le> totalWhales e then 20 else 10)
      + (if 10000 \<le> totalAmountUsd e then 30 else if 5000 \<le> totalAmountUsd e then 20 else 10)
      + (if span_le (timeSpanOf (lastPurchaseTime e) (firstPurchaseTime e)) (5 * 60 * 1000) then 30
         else if span_le (timeSpanOf (lastPurchaseTime e) (firstPurchaseTime e)) (15 * 60 * 1000)
         then 20 else 10)
      + (case marketData e of None \<Rightarrow> 0
         | Some md \<Rightarrow> (if field_ge (marketCap md) 10000000 then 10 else 0)
                    + (if field_ge (liquidity md) 100000 then 10 else 0)
                    + (if field_ge (volume24h md) 100000 then 5 else 0))"
  unfolding riskPoints_enhanced_def Let_def by (cases "marketData e") simp_all

lemma signalConfidence_range:
  assumes "2 \<le> totalWhales c"
  shows "70 \<le> signalConfidence c \<and> signalConfidence c \<le> 95"
  using assms by (simp add: signalConfidence_def Let_def)

lemma example_consensus_eq:
  "example_consensus =
     \<lparr> tokenMint = ''T'', whales = [whale ''W1'' ''T'' (1/2) 0, whale ''W2'' ''T'' 1 300000],
       totalWhales = 2, totalAmountSol = 3/2, totalAmountUsd = 300,
       firstPurchaseTime = Some 0, lastPurchaseTime = Some 300000,
       consensusStrength = 500 \<rparr>"
  by (simp add: example_consensus_def buildConsensus_def Let_def Math_min_def Math_max_def
      whale_def)

lemma example_enhanced_fields:
  "totalWhales example_enhanced = 5 \<and> totalAmountUsd example_enhanced = 10000
   \<and> firstPurchaseTime example_enhanced = Some 0
   \<and> lastPurchaseTime example_enhanced = Some 4000
   \<and> marketData example_enhanced =
       Some \<lparr> marketCap = Some 10000000, price = Some 1, volume24h = Some 100000,
                liquidity = Some 100000 \<rparr>"
  by (simp add: example_enhanced_def buildConsensus_enhanced_def Let_def Math_min_def
      Math_max_def whale_def)

lemma riskPoints_example_enhanced: "riskPoints_enhanced example_enhanced = 115"
  by (simp add: riskPoints_enhanced_sum example_enhanced_fields timeSpanOf_def span_le_def
      field_ge_def)

text \<open>
  The private method \<^verbatim>\<open>calculateRiskScore\<close> of \<^verbatim>\<open>EnhancedTelegramBot\<close>, which no code calls, has
  the same three tiers, no per-whale bonus and up to 25 points for market data; it names a
  score of 90 or more EXTREME, and its score lies between 30 and 115.
\<close>

lemma calculateRiskScore_enhanced_sum:
  "score (calculateRiskScore_enhanced e) =
        (if 5 \<le> totalWhales e then 30 else if 3 \<le> totalWhales e then 20 else 10)
      + (if 10000 \<le> totalAmountUsd e then 30 else if 5000 \<le> totalAmountUsd e then 20 else 10)
      + (if span_le (timeSpanOf (lastPurchaseTime e) (firstPurchaseTime e)) (5 * 60 * 1000) then 30
         else if span_le (timeSpanOf (lastPurchaseTime e) (firstPurchaseTime e)) (15 * 60 * 1000)
         then 20 else 10)
      + (case marketData e of None \<Rightarrow> 0
         | Some md \<Rightarrow> (if field_ge (marketCap md) 10000000 then 10 else 0)
                    + (if field_ge (liquidity md) 100000 then 10 else 0)
                    + (if field_ge (volume24h md) 100000 then 5 else 0))
   \<and> (level (calculateRiskScore_enhanced e) = ''EXTREME'' \<longleftrightarrow>
        90 \<le> score (calculateRiskScore_enhanced e))
   \<and> 30 \<le> score (calculateRiskScore_enhanced e) \<and> score (calculateRiskScore_enhanced e) \<le> 115"
proof -
  have se: "score (calculateRiskScore_enhanced e) = riskPoints_enhanced e"
    by (simp add: calculateRiskScore_enhanced_def Let_def)
  have le: "level (calculateRiskScore_enhanced e) = ''EXTREME'' \<longleftrightarrow> 90 \<le> riskPoints_enhanced e"
    by (simp add: calculateRiskScore_enhanced_def Let_def)
  show ?thesis
    unfolding se le
    using riskPoints_enhanced_range [of e] riskPoints_enhanced_sum [of e]
    by simp
qed

lemma calculateRiskScore_enhanced_example:
  "score (calculateRiskScore_enhanced example_enhanced) = 115
   \<and> level (calculateRiskScore_enhanced example_enhanced) = ''EXTREME''"
  by (simp add: calculateRiskScore_enhanced_def Let_def riskPoints_example_enhanced)



text \<open>
  C10: for an aggregate of at least two whales the base \<^verbatim>\<open>generateTradingSignal\<close> returns a
  confidence between 70 and 95 and the type STRONG BUY or BUY, never WEAK BUY or HOLD. (The
  bound needs the whale count only; it holds whatever the amounts and the purchase times.)
\<close>

theorem generateTradingSignal_buy:
  assumes "2 \<le> totalWhales c"
  shows "70 \<le> confidence (generateTradingSignal c)
   \<and> confidence (generateTradingSignal c) \<le> 95
   \<and> (type (generateTradingSignal c) = ''STRONG BUY'' \<or> type (generateTradingSignal c) = ''BUY'')
   \<and> type (generateTradingSignal c) \<noteq> ''WEAK BUY''
   \<and> type (generateTradingSignal c) \<noteq> ''HOLD''"
  using signalConfidence_range [OF assms]
  by (simp add: generateTradingSignal_def Let_def)

theorem generateTradingSignal_buy_witness:
  "2 \<le> totalWhales example_consensus
   \<and> confidence (generateTradingSignal example_consensus) = 85
   \<and> type (generateTradingSignal example_consensus) = ''STRONG BUY''"
proof -
  have n: "2 \<le> totalWhales example_consensus"
    by (simp add: example_consensus_eq)
  have c: "signalConfidence example_consensus = 85"
    by (simp add: signalConfidence_def Let_def example_consensus_eq timeSpanOf_def span_le_def
        avg_ge_def js_div_example)
  show ?thesis
    using generateTradingSignal_buy [OF n] n c
    by (simp add: generateTradingSignal_def Let_def)
qed

section \<open>Maps in insertion order, deduplication\<close>

lemma map_has_iff: "map_has k m \<longleftrightarrow> k \<in> fst ` set m"
  by (simp add: map_has_def map_of_eq_None_iff)

lemma map_set_absent: "k \<notin> fst ` set m \<Longrightarrow> map_set k v m = m @ [(k, v)]"
  by (induction m) auto

lemma map_of_map_set: "map_of (map_set k v m) = (map_of m)(k \<mapsto> v)"
  by (induction m) (auto simp: fun_eq_iff)

lemma keys_map_set:
  "map fst (map_set k v m) = (if k \<in> fst ` set m then map fst m else map fst m @ [k])"
  by (induction m) force+

lemma distinct_map_set: "distinct (map fst m) \<Longrightarrow> distinct (map fst (map_set k v m))"
  by (simp add: keys_map_set)

lemma firstPerWallet_subset: "set (firstPerWallet r) \<subseteq> set r"
  by (induction r rule: firstPerWallet.induct) auto

lemma firstPerWallet_wallets:
  "walletAddress ` set (firstPerWallet r) = walletAddress ` set r"
  by (induction r rule: firstPerWallet.induct) auto




lemma uniqueWhales_acc:
  "foldl (\<lambda>u purchase.
            if map_has (walletAddress purchase) u then u
            else map_set (walletAddress purchase) (f purchase) u) acc r
   = acc @ map (\<lambda>p. (walletAddress p, f p))
             (firstPerWallet (filter (\<lambda>p. walletAddress p \<notin> fst ` set acc) r))"
proof (induction r arbitrary: acc)
  case Nil
  show ?case by simp
next
  case (Cons p r)
  show ?case
  proof (cases "walletAddress p \<in> fst ` set acc")
    case True
    then show ?thesis using Cons.IH [of acc] by (simp add: map_has_iff)
  next
    case False
    have eq: "filter (\<lambda>q. walletAddress q \<notin> fst ` set (acc @ [(walletAddress p, f p)])) r
        = filter (\<lambda>q. walletAddress q \<noteq> walletAddress p)
            (filter (\<lambda>q. walletAddress q \<notin> fst ` set acc) r)"
      by (induction r) auto
    from False show ?thesis
      using Cons.IH [of "acc @ [(walletAddress p, f p)]", unfolded eq]
      by (simp add: map_has_iff map_set_absent)
  qed
qed

lemma uniquePurchasesOf_firstPerWallet: "uniquePurchasesOf r = firstPerWallet r"
  using uniqueWhales_acc [of "\<lambda>p. p" "[]" r]
  by (simp add: uniquePurchasesOf_def uniqueWhales_def comp_def)

lemma uniquePurchasesOf_enhanced_firstPerWallet:
  "uniquePurchasesOf_enhanced quote r =
     map (\<lambda>p. p\<lparr> amountUsd := js_mul (amountSol p) quote \<rparr>) (firstPerWallet r)"
  using uniqueWhales_acc [of "\<lambda>p. p\<lparr> amountUsd := js_mul (amountSol p) quote \<rparr>" "[]" r]
  by (simp add: uniquePurchasesOf_enhanced_def uniqueWhales_enhanced_def comp_def)

lemma foldl_plus: "foldl (\<lambda>s p. s + g p) (a::rat) xs = a + sum_list (map g xs)"
  by (induction xs arbitrary: a) (simp_all add: add.assoc)

section \<open>Window expiry and deduplication\<close>

lemma buildConsensus_totals:
  "totalAmountUsd (buildConsensus mint u) = sum_list (map amountUsd u)
   \<and> totalAmountSol (buildConsensus mint u) = sum_list (map amountSol u)
   \<and> totalWhales (buildConsensus mint u) = length u
   \<and> whales (buildConsensus mint u) = u
   \<and> WhaleConsensus.tokenMint (buildConsensus mint u) = mint"
  by (simp add: buildConsensus_def Let_def foldl_plus)



lemma within_window_fun: "within_window now w = (\<lambda>p. now - timestamp p \<le> w)"
  by (simp add: fun_eq_iff within_window_def)

text \<open>
  C2: expiry is strict and decided by the timestamp. An event with
  \<open>now - timestamp > window\<close> is neither among the recent purchases nor among the unique
  whales, and the consensus of an entry is the same with the expired events removed; an event
  with \<open>now - timestamp = window\<close> is retained and its wallet is among the unique whales; an
  event passes the filter exactly when it is in the list and \<open>now - timestamp \<le> window\<close>,
  wherever it stands in the list; and the list stored on insertion is the old list with the
  new event, filtered by the same test.
\<close>

theorem window_expiry_strict:
  "(e \<in> set purchases \<and> now - timestamp e > w \<longrightarrow>
      e \<notin> set (filter (within_window now w) purchases)
      \<and> e \<notin> set (uniquePurchasesOf (filter (within_window now w) purchases)))
   \<and> consensusOfEntry now w k (mint, purchases)
       = consensusOfEntry now w k (mint, filter (\<lambda>x. \<not> now - timestamp x > w) purchases)
   \<and> (e \<in> set purchases \<and> now - timestamp e = w \<longrightarrow>
        e \<in> set (filter (within_window now w) purchases)
        \<and> walletAddress e
            \<in> walletAddress ` set (uniquePurchasesOf (filter (within_window now w) purchases)))
   \<and> (e \<in> set (filter (within_window now w) purchases)
        \<longleftrightarrow> e \<in> set purchases \<and> now - timestamp e \<le> w)
   \<and> map_of (track_purchase now w m p) (TokenPurchase.tokenMint p)
       = Some (filter (\<lambda>x. now - timestamp x \<le> w)
                 ((case map_of m (TokenPurchase.tokenMint p) of None \<Rightarrow> [] | Some ps \<Rightarrow> ps) @ [p]))"
proof -
  have sub: "set (uniquePurchasesOf r) \<subseteq> set r" for r
    by (simp add: uniquePurchasesOf_firstPerWallet firstPerWallet_subset)
  have a: "e \<notin> set (uniquePurchasesOf (filter (within_window now w) purchases))"
    if "now - timestamp e > w"
    using that sub [of "filter (within_window now w) purchases"] by (auto simp: within_window_def)
  have f: "filter (within_window now w) (filter (\<lambda>x. \<not> now - timestamp x > w) purchases)
           = filter (within_window now w) purchases"
  proof -
    have "(\<lambda>x. \<not> now - timestamp x > w) = within_window now w"
      by (auto simp: within_window_def fun_eq_iff)
    then show ?thesis by simp
  qed
  have b: "consensusOfEntry now w k (mint, purchases)
       = consensusOfEntry now w k (mint, filter (\<lambda>x. \<not> now - timestamp x > w) purchases)"
    by (simp only: consensusOfEntry_def snd_conv fst_conv f)
  have c: "walletAddress e
       \<in> walletAddress ` set (uniquePurchasesOf (filter (within_window now w) purchases))"
    if "e \<in> set purchases" "now - timestamp e = w"
    using that by (simp add: uniquePurchasesOf_firstPerWallet firstPerWallet_wallets
        within_window_def)
  have d: "map_of (track_purchase now w m p) (TokenPurchase.tokenMint p)
       = Some (filter (\<lambda>x. now - timestamp x \<le> w)
                 ((case map_of m (TokenPurchase.tokenMint p) of None \<Rightarrow> [] | Some ps \<Rightarrow> ps) @ [p]))"
    by (auto simp: track_purchase_def Let_def map_of_map_set map_has_def within_window_fun
        split: option.splits)
  show ?thesis
    using a b c d by (auto simp: within_window_def)
qed

theorem window_expiry_strict_witness:
  "whale ''W1'' ''T'' (1/2) 0 \<in> set [whale ''W1'' ''T'' (1/2) 0, whale ''W2'' ''T'' 1 300000]
   \<and> 1200000 - timestamp (whale ''W1'' ''T'' (1/2) 0) > 900000
   \<and> whale ''W2'' ''T'' 1 300000 \<in> set [whale ''W1'' ''T'' (1/2) 0, whale ''W2'' ''T'' 1 300000]
   \<and> 1200000 - timestamp (whale ''W2'' ''T'' 1 300000) = 900000
   \<and> whale ''W1'' ''T'' (1/2) 0
        \<notin> set (uniquePurchasesOf (filter (within_window 1200000 900000)
                   [whale ''W1'' ''T'' (1/2) 0, whale ''W2'' ''T'' 1 300000]))
   \<and> whale ''W2'' ''T'' 1 300000
        \<in> set (filter (within_window 1200000 900000)
                   [whale ''W1'' ''T'' (1/2) 0, whale ''W2'' ''T'' 1 300000])"
proof -
  let ?e1 = "whale ''W1'' ''T'' (1/2) 0"
  let ?e2 = "whale ''W2'' ''T'' 1 300000"
  have m1: "?e1 \<in> set [?e1, ?e2]" and m2: "?e2 \<in> set [?e1, ?e2]"
    by simp_all
  have x1: "1200000 - timestamp ?e1 > 900000" and x2: "1200000 - timestamp ?e2 = 900000"
    by (simp_all add: whale_def)
  from window_expiry_strict [where e = ?e1 and purchases = "[?e1, ?e2]" and now = 1200000
      and w = 900000] m1 x1
  have r1: "?e1 \<notin> set (uniquePurchasesOf (filter (within_window 1200000 900000) [?e1, ?e2]))"
    by blast
  from window_expiry_strict [where e = ?e2 and purchases = "[?e1, ?e2]" and now = 1200000
      and w = 900000] m2 x2
  have r2: "?e2 \<in> set (filter (within_window 1200000 900000) [?e1, ?e2])"
    by blast
  show ?thesis
    using m1 x1 m2 x2 r1 r2 by blast
qed

section \<open>What is stored and what is read\<close>

lemma alertIfNew_fields:
  "recentWhalePurchases (alertIfNew m c) = recentWhalePurchases m
   \<and> consensusTimeWindow (alertIfNew m c) = consensusTimeWindow m
   \<and> MIN_WHALES_FOR_CONSENSUS (alertIfNew m c) = MIN_WHALES_FOR_CONSENSUS m
   \<and> CHECK_INTERVAL (alertIfNew m c) = CHECK_INTERVAL m"
  by (simp add: alertIfNew_def)

lemma foldl_alertIfNew_fields:
  "recentWhalePurchases (foldl alertIfNew m cs) = recentWhalePurchases m
   \<and> consensusTimeWindow (foldl alertIfNew m cs) = consensusTimeWindow m
   \<and> MIN_WHALES_FOR_CONSENSUS (foldl alertIfNew m cs) = MIN_WHALES_FOR_CONSENSUS m
   \<and> CHECK_INTERVAL (foldl alertIfNew m cs) = CHECK_INTERVAL m"
  by (induction cs arbitrary: m) (simp_all add: alertIfNew_fields)

lemma instantEntry_fields:
  "recentWhalePurchases (fst (instantEntry g now q entry m)) = recentWhalePurchases m
   \<and> consensusTimeWindow (fst (instantEntry g now q entry m)) = consensusTimeWindow m
   \<and> MIN_WHALES_FOR_CONSENSUS (fst (instantEntry g now q entry m)) = MIN_WHALES_FOR_CONSENSUS m
   \<and> CHECK_INTERVAL (fst (instantEntry g now q entry m)) = CHECK_INTERVAL m"
  by (simp add: instantEntry_def Let_def split: list.split)

lemma instantEntries_fields:
  "recentWhalePurchases (instantEntries g now q es m) = recentWhalePurchases m
   \<and> consensusTimeWindow (instantEntries g now q es m) = consensusTimeWindow m
   \<and> MIN_WHALES_FOR_CONSENSUS (instantEntries g now q es m) = MIN_WHALES_FOR_CONSENSUS m
   \<and> CHECK_INTERVAL (instantEntries g now q es m) = CHECK_INTERVAL m"
proof (induction es arbitrary: m)
  case Nil
  show ?case by simp
next
  case (Cons entry rest)
  show ?case
    using Cons.IH [of "fst (instantEntry g now q entry m)"] instantEntry_fields [of g now q entry m]
    by (auto split: prod.split option.split)
qed

lemma map_of_track_other:
  "k \<noteq> TokenPurchase.tokenMint p \<Longrightarrow> map_of (track_purchase now w m p) k = map_of m k"
  by (simp add: track_purchase_def Let_def map_of_map_set)

lemma map_of_track_same:
  "map_of (track_purchase now w m p) (TokenPurchase.tokenMint p)
     = Some (filter (within_window now w)
               ((case map_of m (TokenPurchase.tokenMint p) of None \<Rightarrow> [] | Some ps \<Rightarrow> ps) @ [p]))"
  by (auto simp: track_purchase_def Let_def map_of_map_set map_has_def split: option.splits)

lemma track_all_purged:
  assumes "p \<in> set purchases"
  shows "\<exists>evs. map_of (foldl (track_purchase now w) m purchases) (TokenPurchase.tokenMint p)
                 = Some evs \<and> (\<forall>e \<in> set evs. now - timestamp e \<le> w)"
  using assms
proof (induction purchases arbitrary: p rule: rev_induct)
  case Nil
  then show ?case by simp
next
  case (snoc x xs)
  show ?case
  proof (cases "TokenPurchase.tokenMint p = TokenPurchase.tokenMint x")
    case True
    then show ?thesis
      by (simp add: map_of_track_same within_window_fun)
  next
    case False
    with snoc.prems have "p \<in> set xs" by auto
    from snoc.IH [OF this] False show ?thesis
      by (simp add: map_of_track_other)
  qed
qed

lemma analyze_keeps_store:
  "recentWhalePurchases (analyzeWhaleConsensus now m) = recentWhalePurchases m"
  by (simp add: analyzeWhaleConsensus_def foldl_alertIfNew_fields)

lemma analyzeEnhanced_keeps_store:
  "analyzeEnhancedWhaleConsensus g now q m = Inr m'
     \<Longrightarrow> recentWhalePurchases m' = recentWhalePurchases m"
  by (auto simp: analyzeEnhancedWhaleConsensus_def foldl_alertIfNew_fields split: sum.splits)

lemma consensusOfEntry_whales_recent:
  "c \<in> set (consensusOfEntry now w k entry) \<Longrightarrow> e \<in> set (whales c)
     \<Longrightarrow> e \<in> set (snd entry) \<and> now - timestamp e \<le> w"
  using firstPerWallet_subset [of "filter (within_window now w) (snd entry)"]
  by (auto simp: consensusOfEntry_def Let_def buildConsensus_totals
      uniquePurchasesOf_firstPerWallet within_window_def split: if_splits)

lemma buildConsensus_enhanced_totals:
  "totalAmountUsd (buildConsensus_enhanced md mint u) = sum_list (map amountUsd u)
   \<and> totalAmountSol (buildConsensus_enhanced md mint u) = sum_list (map amountSol u)
   \<and> totalWhales (buildConsensus_enhanced md mint u) = length u
   \<and> whales (buildConsensus_enhanced md mint u) = u
   \<and> WhaleConsensus.tokenMint (buildConsensus_enhanced md mint u) = mint"
  by (simp add: buildConsensus_enhanced_def Let_def foldl_plus)

lemma collect_elem:
  "collect f xs = Inr ys \<Longrightarrow> c \<in> set ys \<Longrightarrow> \<exists>x \<in> set xs. \<exists>zs. f x = Inr zs \<and> c \<in> set zs"
  by (induction xs arbitrary: ys) (auto split: sum.splits)

lemma alerts_foldl_alertIfNew:
  "set (alerts (foldl alertIfNew m cs)) \<subseteq> set (alerts m) \<union> set cs"
proof (induction cs arbitrary: m)
  case Nil
  show ?case by simp
next
  case (Cons c cs)
  show ?case
    using Cons.IH [of "alertIfNew m c"] by (auto simp: alertIfNew_def split: if_splits)
qed

lemma set_sortByStrength: "set (sortByStrength cs) = set cs"
  by (simp add: sortByStrength_def)

lemma whales_repriced_recent:
  assumes "e \<in> set (whales (buildConsensus_enhanced md mint
                      (map (\<lambda>p. p\<lparr> amountUsd := f p \<rparr>)
                         (firstPerWallet (filter (within_window now w) ps)))))"
  shows "now - timestamp e \<le> w"
proof -
  from assms obtain p where p: "p \<in> set (firstPerWallet (filter (within_window now w) ps))"
    and e: "e = p\<lparr> amountUsd := f p \<rparr>"
    by (auto simp: buildConsensus_enhanced_totals)
  from p firstPerWallet_subset [of "filter (within_window now w) ps"]
  have "within_window now w p"
    by auto
  with e show ?thesis
    by (simp add: within_window_def)
qed

lemma consensusOfEntry_enhanced_recent:
  "consensusOfEntry_enhanced g now q w k entry = Inr cs \<Longrightarrow> c \<in> set cs \<Longrightarrow> e \<in> set (whales c)
     \<Longrightarrow> now - timestamp e \<le> w"
  using whales_repriced_recent [of e "g (fst entry)" "fst entry"
      "\<lambda>p. js_mul (amountSol p) q" now w "snd entry"]
  by (auto simp: consensusOfEntry_enhanced_def Let_def uniquePurchasesOf_enhanced_firstPerWallet
      split: if_splits list.splits)

lemma analyze_recent:
  assumes "c \<in> set (alerts (analyzeWhaleConsensus now m))" and "c \<notin> set (alerts m)"
    and "e \<in> set (whales c)"
  shows "now - timestamp e \<le> consensusTimeWindow m"
proof -
  from assms(1,2) alerts_foldl_alertIfNew [of m "sortByStrength (consensusTokens now m)"]
  have "c \<in> set (consensusTokens now m)"
    by (auto simp: analyzeWhaleConsensus_def set_sortByStrength)
  with assms(3) consensusOfEntry_whales_recent [of c now "consensusTimeWindow m"
      "MIN_WHALES_FOR_CONSENSUS m" _ e]
  show ?thesis
    by (auto simp: consensusTokens_def)
qed

lemma analyzeEnhanced_recent:
  assumes "analyzeEnhancedWhaleConsensus g now q m = Inr m'"
    and "c \<in> set (alerts m')" and "c \<notin> set (alerts m)" and "e \<in> set (whales c)"
  shows "now - timestamp e \<le> consensusTimeWindow m"
proof -
  from assms(1) obtain tokens where
    t: "collect (consensusOfEntry_enhanced g now q (consensusTimeWindow m)
                   (MIN_WHALES_FOR_CONSENSUS m)) (recentWhalePurchases m) = Inr tokens"
    and m': "m' = foldl alertIfNew m (sortByStrength tokens)"
    by (auto simp: analyzeEnhancedWhaleConsensus_def split: sum.splits)
  from assms(2,3) m' alerts_foldl_alertIfNew [of m "sortByStrength tokens"]
  have "c \<in> set tokens"
    by (auto simp: set_sortByStrength)
  from collect_elem [OF t this] assms(4) show ?thesis
    by (auto dest: consensusOfEntry_enhanced_recent)
qed

lemma instantEntry_recent:
  assumes "c \<in> set (alerts (fst (instantEntry g now q entry m)))" and "c \<notin> set (alerts m)"
    and "e \<in> set (whales c)"
  shows "now - timestamp e \<le> consensusTimeWindow m"
  using assms whales_repriced_recent [of e "g (fst entry)" "fst entry"
      "\<lambda>p. js_mul (amountSol p) q" now "consensusTimeWindow m" "snd entry"]
  by (auto simp: instantEntry_def Let_def uniquePurchasesOf_firstPerWallet
      split: if_splits list.splits)

lemma instantEntries_recent:
  "c \<in> set (alerts (instantEntries g now q es m)) \<Longrightarrow> c \<notin> set (alerts m)
     \<Longrightarrow> e \<in> set (whales c) \<Longrightarrow> now - timestamp e \<le> consensusTimeWindow m"
proof (induction es arbitrary: m)
  case Nil
  then show ?case by simp
next
  case (Cons entry rest)
  obtain m1 r where s: "instantEntry g now q entry m = (m1, r)"
    by (cases "instantEntry g now q entry m")
  have w: "consensusTimeWindow m1 = consensusTimeWindow m"
    using instantEntry_fields [of g now q entry m] s by simp
  show ?case
  proof (cases "c \<in> set (alerts m1)")
    case True
    with Cons.prems(2,3) s instantEntry_recent [of c g now q entry m e] show ?thesis
      by simp
  next
    case False
    with Cons.prems(1) s have "c \<in> set (alerts (instantEntries g now q rest m1))"
      by (cases r) auto
    from Cons.IH [OF this False Cons.prems(3)] w show ?thesis
      by simp
  qed
qed

lemma js_mul_examples:
  "js_mul (1 / 2) 150 = 75 \<and> js_mul 1 150 = 150 \<and> js_mul 1 200 = 200 \<and> js_mul 2 200 = 400"
  by code_simp

lemma string_of_nat_digit: "n < 10 \<Longrightarrow> string_of_nat n = [digit_char n]"
  by (simp add: string_of_nat.simps)

lemma signalId_T_2: "signalId ''T'' 2 = ''T_2''"
  by (simp add: signalId_def string_of_nat_digit digit_char_def)

lemma signalId_T_Suc: "signalId ''T'' (Suc (Suc 0)) = ''T_2''"
  using signalId_T_2 by (simp add: numeral_2_eq_2)

lemma example_monitor_enhanced_eq:
  "example_monitor_enhanced =
     new_monitor_enhanced\<lparr> recentWhalePurchases :=
        [(''T'', [whale ''W1'' ''T'' (1/2) 0, whale ''W2'' ''T'' 1 300000])] \<rparr>"
  by (simp add: example_monitor_enhanced_def addPurchasesToConsensusTracking_def
      track_purchase_def Let_def map_has_def within_window_def new_monitor_enhanced_def whale_def)

lemma example_analyze_enhanced:
  "analyzeEnhancedWhaleConsensus (\<lambda>_. None) 302000 150 example_monitor_enhanced
   = Inr (example_monitor_enhanced
        \<lparr> alertedConsensus := {''T_2''},
          alerts := [buildConsensus_enhanced None ''T''
                       [(whale ''W1'' ''T'' (1/2) 0)\<lparr> amountUsd := 75 \<rparr>,
                        (whale ''W2'' ''T'' 1 300000)\<lparr> amountUsd := 150 \<rparr>]] \<rparr>)"
proof -
  have u: "uniquePurchasesOf_enhanced 150
             (filter (within_window 302000 1800000)
                [whale ''W1'' ''T'' (1/2) 0, whale ''W2'' ''T'' 1 300000])
           = [(whale ''W1'' ''T'' (1/2) 0)\<lparr> amountUsd := 75 \<rparr>,
              (whale ''W2'' ''T'' 1 300000)\<lparr> amountUsd := 150 \<rparr>]"
    by (simp add: uniquePurchasesOf_enhanced_firstPerWallet within_window_def whale_def
        js_mul_examples)
  have e: "consensusOfEntry_enhanced (\<lambda>_. None) 302000 150 1800000 2
             (''T'', [whale ''W1'' ''T'' (1/2) 0, whale ''W2'' ''T'' 1 300000])
           = Inr [buildConsensus_enhanced None ''T''
                       [(whale ''W1'' ''T'' (1/2) 0)\<lparr> amountUsd := 75 \<rparr>,
                        (whale ''W2'' ''T'' 1 300000)\<lparr> amountUsd := 150 \<rparr>]]"
    unfolding consensusOfEntry_enhanced_def snd_conv fst_conv u Let_def by simp
  show ?thesis
    by (simp add: analyzeEnhancedWhaleConsensus_def example_monitor_enhanced_eq
        new_monitor_enhanced_def e sortByStrength_def
        alertIfNew_def consensusId_def buildConsensus_enhanced_totals signalId_T_Suc)
qed

text \<open>
  C6, as the code has it: expired events are removed from the stored sequence on insertion
  and filtered out on evaluation. After \<^verbatim>\<open>addPurchasesToConsensusTracking\<close> at \<open>now\<close>, the
  sequence stored for the token of every inserted purchase holds no event older than the
  window at \<open>now\<close>. An evaluation (\<^verbatim>\<open>analyzeWhaleConsensus\<close>, \<^verbatim>\<open>analyzeEnhancedWhaleConsensus\<close>,
  \<^verbatim>\<open>instantEnhancedConsensusCheck\<close>) leaves every stored sequence as it was; what it reads
  is filtered: no whale of a consensus that the base evaluation builds, and no whale of a
  consensus that any of the three evaluations hands to the sink, is older than the window.
\<close>

theorem purge_on_insert_filter_on_read:
  "(p \<in> set purchases \<longrightarrow>
      (\<exists>evs. map_of (recentWhalePurchases (addPurchasesToConsensusTracking now purchases m))
                (TokenPurchase.tokenMint p) = Some evs
             \<and> (\<forall>e \<in> set evs. now - timestamp e \<le> consensusTimeWindow m)))
   \<and> recentWhalePurchases (analyzeWhaleConsensus now b) = recentWhalePurchases b
   \<and> (c \<in> set (consensusTokens now b) \<and> e \<in> set (whales c) \<longrightarrow>
        now - timestamp e \<le> consensusTimeWindow b)
   \<and> (analyzeEnhancedWhaleConsensus g now q x = Inr x' \<longrightarrow>
        recentWhalePurchases x' = recentWhalePurchases x)
   \<and> recentWhalePurchases (instantEnhancedConsensusCheck g now q x) = recentWhalePurchases x
   \<and> (cb \<in> set (alerts (analyzeWhaleConsensus now b)) \<and> cb \<notin> set (alerts b)
        \<and> eb \<in> set (whales cb) \<longrightarrow> now - timestamp eb \<le> consensusTimeWindow b)
   \<and> (analyzeEnhancedWhaleConsensus g now q x = Inr x' \<and> ca \<in> set (alerts x')
        \<and> ca \<notin> set (alerts x) \<and> ea \<in> set (whales ca) \<longrightarrow>
        now - timestamp ea \<le> consensusTimeWindow x)
   \<and> (ci \<in> set (alerts (instantEnhancedConsensusCheck g now q x)) \<and> ci \<notin> set (alerts x)
        \<and> ei \<in> set (whales ci) \<longrightarrow> now - timestamp ei \<le> consensusTimeWindow x)"
proof -
  have a: "\<exists>evs. map_of (recentWhalePurchases (addPurchasesToConsensusTracking now purchases m))
                (TokenPurchase.tokenMint p) = Some evs
             \<and> (\<forall>e \<in> set evs. now - timestamp e \<le> consensusTimeWindow m)"
    if "p \<in> set purchases"
    using track_all_purged [OF that, of now "consensusTimeWindow m" "recentWhalePurchases m"]
    by (simp add: addPurchasesToConsensusTracking_def)
  have r: "now - timestamp e \<le> consensusTimeWindow b"
    if "c \<in> set (consensusTokens now b)" "e \<in> set (whales c)"
    using that consensusOfEntry_whales_recent [of c now "consensusTimeWindow b"
        "MIN_WHALES_FOR_CONSENSUS b" _ e]
    by (auto simp: consensusTokens_def)
  have i: "recentWhalePurchases (instantEnhancedConsensusCheck g now q x)
             = recentWhalePurchases x"
    by (simp add: instantEnhancedConsensusCheck_def instantEntries_fields)
  show ?thesis
    using a r i analyze_keeps_store [of now b] analyzeEnhanced_keeps_store [of g now q x x']
      analyze_recent [of cb now b eb] analyzeEnhanced_recent [of g now q x x' ca ea]
      instantEntries_recent [of ci g now q "recentWhalePurchases x" x ei]
    unfolding instantEnhancedConsensusCheck_def
    by blast
qed

lemma add_example_store:
  "recentWhalePurchases
     (addPurchasesToConsensusTracking 0 [whale ''W1'' ''T'' (1/2) 0] new_monitor)
   = [(''T'', [whale ''W1'' ''T'' (1/2) 0])]"
  by (simp add: addPurchasesToConsensusTracking_def track_purchase_def Let_def map_has_def
      within_window_def new_monitor_def whale_def)

theorem purge_on_insert_filter_on_read_witness:
  "whale ''W2'' ''T'' 1 960000 \<in> set [whale ''W1'' ''T'' (1/2) 0, whale ''W2'' ''T'' 1 960000]
   \<and> (\<exists>evs. map_of (recentWhalePurchases
                 (addPurchasesToConsensusTracking 960000
                    [whale ''W1'' ''T'' (1/2) 0, whale ''W2'' ''T'' 1 960000] new_monitor))
               (TokenPurchase.tokenMint (whale ''W2'' ''T'' 1 960000)) = Some evs
             \<and> (\<forall>e \<in> set evs. 960000 - timestamp e \<le> consensusTimeWindow new_monitor))
   \<and> recentWhalePurchases
        (addPurchasesToConsensusTracking 960000
           [whale ''W1'' ''T'' (1/2) 0, whale ''W2'' ''T'' 1 960000] new_monitor)
      = [(''T'', [whale ''W2'' ''T'' 1 960000])]
   \<and> (\<exists>x'. analyzeEnhancedWhaleConsensus (\<lambda>_. None) 302000 150 example_monitor_enhanced = Inr x'
           \<and> recentWhalePurchases x' = recentWhalePurchases example_monitor_enhanced
           \<and> alerts x' \<noteq> alerts example_monitor_enhanced)
   \<and> 302000 - timestamp ((whale ''W1'' ''T'' (1/2) 0)\<lparr> amountUsd := 75 \<rparr>)
       \<le> consensusTimeWindow example_monitor_enhanced"
proof -
  let ?e1 = "whale ''W1'' ''T'' (1/2) 0"
  let ?e2 = "whale ''W2'' ''T'' 1 960000"
  let ?c = "buildConsensus_enhanced None ''T''
                       [(whale ''W1'' ''T'' (1/2) 0)\<lparr> amountUsd := 75 \<rparr>,
                        (whale ''W2'' ''T'' 1 300000)\<lparr> amountUsd := 150 \<rparr>]"
  let ?x = "example_monitor_enhanced\<lparr> alertedConsensus := {''T_2''}, alerts := [?c] \<rparr>"
  have h: "?e2 \<in> set [?e1, ?e2]"
    by simp
  have ev: "analyzeEnhancedWhaleConsensus (\<lambda>_. None) 302000 150 example_monitor_enhanced = Inr ?x"
    by (rule example_analyze_enhanced)
  have ci: "?c \<in> set (alerts ?x)"
    by simp
  have cn: "?c \<notin> set (alerts example_monitor_enhanced)"
    by (simp add: example_monitor_enhanced_eq new_monitor_enhanced_def)
  have ei: "?e1\<lparr> amountUsd := 75 \<rparr> \<in> set (whales ?c)"
    by (simp add: buildConsensus_enhanced_totals)
  note t = purge_on_insert_filter_on_read [where p = ?e2 and purchases = "[?e1, ?e2]"
      and now = 960000 and m = new_monitor]
  note u = purge_on_insert_filter_on_read [where g = "\<lambda>_. None" and now = 302000 and q = 150
      and x = example_monitor_enhanced and x' = ?x and ca = ?c
      and ea = "?e1\<lparr> amountUsd := 75 \<rparr>"]
  from t h
  have a: "\<exists>evs. map_of (recentWhalePurchases
                 (addPurchasesToConsensusTracking 960000 [?e1, ?e2] new_monitor))
               (TokenPurchase.tokenMint ?e2) = Some evs
             \<and> (\<forall>e \<in> set evs. 960000 - timestamp e \<le> consensusTimeWindow new_monitor)"
    by blast
  have s: "recentWhalePurchases (addPurchasesToConsensusTracking 960000 [?e1, ?e2] new_monitor)
      = [(''T'', [?e2])]"
    by (simp add: addPurchasesToConsensusTracking_def track_purchase_def Let_def map_has_def
      within_window_def new_monitor_def whale_def)
  from u ev
  have k: "recentWhalePurchases ?x = recentWhalePurchases example_monitor_enhanced"
    by blast
  from u ev ci cn ei
  have r: "302000 - timestamp (?e1\<lparr> amountUsd := 75 \<rparr>)
             \<le> consensusTimeWindow example_monitor_enhanced"
    by blast
  have d: "alerts ?x \<noteq> alerts example_monitor_enhanced"
    using ci cn by metis
  have "\<exists>x'. analyzeEnhancedWhaleConsensus (\<lambda>_. None) 302000 150 example_monitor_enhanced = Inr x'
           \<and> recentWhalePurchases x' = recentWhalePurchases example_monitor_enhanced
           \<and> alerts x' \<noteq> alerts example_monitor_enhanced"
    using ev k d by - (rule exI [of _ ?x], simp)
  with h a s r show ?thesis
    by blast
qed

text \<open>
  C6 as stated fails after an evaluation: an event inserted at 0 is still in the stored
  sequence of its token after \<^verbatim>\<open>analyzeWhaleConsensus\<close> at 16 minutes, with a window of 15
  minutes.
\<close>

theorem stale_event_stored_after_evaluate:
  "recentWhalePurchases
     (analyzeWhaleConsensus 960000
        (addPurchasesToConsensusTracking 0 [whale ''W1'' ''T'' (1/2) 0] new_monitor))
   = [(''T'', [whale ''W1'' ''T'' (1/2) 0])]
   \<and> 960000 - timestamp (whale ''W1'' ''T'' (1/2) 0)
       > consensusTimeWindow
           (analyzeWhaleConsensus 960000
              (addPurchasesToConsensusTracking 0 [whale ''W1'' ''T'' (1/2) 0] new_monitor))"
proof -
  have w: "consensusTimeWindow
           (analyzeWhaleConsensus 960000
              (addPurchasesToConsensusTracking 0 [whale ''W1'' ''T'' (1/2) 0] new_monitor))
       = 900000"
    by (simp add: analyzeWhaleConsensus_def foldl_alertIfNew_fields
        addPurchasesToConsensusTracking_def new_monitor_def)
  have t: "timestamp (whale ''W1'' ''T'' (1/2) 0) = 0"
    by (simp add: whale_def)
  show ?thesis
    unfolding w t analyze_keeps_store add_example_store by simp
qed





section \<open>Prices\<close>











lemma collect_returns:
  "(\<And>x. x \<in> set xs \<Longrightarrow> \<exists>ys. f x = Inr ys) \<Longrightarrow> \<exists>zs. collect f xs = Inr zs"
proof (induction xs)
  case Nil
  show ?case by simp
next
  case (Cons x xs)
  from Cons.prems obtain ys where "f x = Inr ys"
    by auto
  moreover from Cons obtain zs where "collect f xs = Inr zs"
    by auto
  ultimately show ?case
    by simp
qed

lemma analyzeEnhanced_returns:
  assumes "1 \<le> MIN_WHALES_FOR_CONSENSUS m"
  shows "\<exists>m'. analyzeEnhancedWhaleConsensus g now q m = Inr m'"
proof -
  have "\<exists>ys. consensusOfEntry_enhanced g now q (consensusTimeWindow m)
               (MIN_WHALES_FOR_CONSENSUS m) x = Inr ys" for x
    using assms by (auto simp: consensusOfEntry_enhanced_def Let_def split: list.split)
  then obtain zs where "collect (consensusOfEntry_enhanced g now q (consensusTimeWindow m)
       (MIN_WHALES_FOR_CONSENSUS m)) (recentWhalePurchases m) = Inr zs"
    using collect_returns [of "recentWhalePurchases m"
        "consensusOfEntry_enhanced g now q (consensusTimeWindow m) (MIN_WHALES_FOR_CONSENSUS m)"]
    by auto
  then show ?thesis
    by (simp add: analyzeEnhancedWhaleConsensus_def)
qed




section \<open>The identifier is injective\<close>

lemma digit_char_code: "d < 10 \<Longrightarrow> (of_char (digit_char d) :: nat) = 48 + d"
proof -
  assume "d < 10"
  then have "d = 0 \<or> d = 1 \<or> d = 2 \<or> d = 3 \<or> d = 4 \<or> d = 5 \<or> d = 6 \<or> d = 7 \<or> d = 8
      \<or> d = 9"
    by arith
  then show ?thesis
    by (auto simp: digit_char_def)
qed

lemma digit_char_inj:
  assumes "a < 10" and "b < 10" and "digit_char a = digit_char b"
  shows "a = b"
proof -
  from assms(3) have "(of_char (digit_char a) :: nat) = of_char (digit_char b)"
    by (rule arg_cong)
  then have "48 + a = 48 + b"
    by (simp only: digit_char_code [OF assms(1)] digit_char_code [OF assms(2)])
  then show ?thesis
    by arith
qed

lemma digit_char_not_underscore: "digit_char d \<noteq> CHR ''_''"
  by (simp add: digit_char_def)

lemma string_of_nat_nonempty: "string_of_nat n \<noteq> []"
  by (subst string_of_nat.simps) simp

lemma string_of_nat_no_underscore: "CHR ''_'' \<notin> set (string_of_nat n)"
proof (induction n rule: string_of_nat.induct)
  case (1 n)
  show ?case
  proof (cases "n < 10")
    case True
    then show ?thesis
      using digit_char_not_underscore [of n] by (subst string_of_nat.simps) auto
  next
    case False
    with 1 show ?thesis
      using digit_char_not_underscore [of "n mod 10"] by (subst string_of_nat.simps) auto
  qed
qed

lemma string_of_nat_inj: "string_of_nat a = string_of_nat b \<Longrightarrow> a = b"
proof (induction a arbitrary: b rule: string_of_nat.induct)
  case (1 a)
  show ?case
  proof (cases "a < 10")
    case a: True
    show ?thesis
    proof (cases "b < 10")
      case True
      with a "1.prems" show ?thesis
        by (simp add: string_of_nat_digit digit_char_inj)
    next
      case False
      with a "1.prems" string_of_nat_nonempty [of "b div 10"] show ?thesis
        by (simp add: string_of_nat_digit string_of_nat.simps [of b])
    qed
  next
    case a: False
    show ?thesis
    proof (cases "b < 10")
      case True
      with a "1.prems" string_of_nat_nonempty [of "a div 10"] show ?thesis
        by (simp add: string_of_nat_digit string_of_nat.simps [of a])
    next
      case False
      with a "1.prems" have e: "string_of_nat (a div 10) = string_of_nat (b div 10)"
        and d: "digit_char (a mod 10) = digit_char (b mod 10)"
        by (simp_all add: string_of_nat.simps [of a] string_of_nat.simps [of b])
      from "1.IH" [OF a e] have "a div 10 = b div 10" .
      moreover from d have "a mod 10 = b mod 10"
        by (rule digit_char_inj [rotated 2]) simp_all
      ultimately show ?thesis
        by (metis div_mult_mod_eq)
    qed
  qed
qed

lemma split_at_last_underscore:
  assumes "m1 @ CHR ''_'' # d1 = m2 @ CHR ''_'' # d2"
    and "CHR ''_'' \<notin> set d1" and "CHR ''_'' \<notin> set d2"
  shows "m1 = m2 \<and> d1 = d2"
proof -
  have t: "takeWhile (\<lambda>c. c \<noteq> CHR ''_'') (rev (m @ CHR ''_'' # d)) = rev d"
    if "CHR ''_'' \<notin> set d" for m d
    using that by (auto simp: takeWhile_tail)
  from assms(1) have "rev (m1 @ CHR ''_'' # d1) = rev (m2 @ CHR ''_'' # d2)"
    by simp
  then have "rev d1 = rev d2"
    using t [OF assms(2), of m1] t [OF assms(3), of m2] by simp
  then have "d1 = d2" by simp
  with assms(1) show ?thesis by simp
qed

lemma signalId_inj: "signalId m1 n1 = signalId m2 n2 \<Longrightarrow> m1 = m2 \<and> n1 = n2"
  using split_at_last_underscore [of m1 "string_of_nat n1" m2 "string_of_nat n2"]
    string_of_nat_no_underscore string_of_nat_inj
  by (auto simp: signalId_def)

section \<open>At most one alert per signal\<close>

lemma gate_ok_alertIfNew: "gate_ok m \<Longrightarrow> gate_ok (alertIfNew m c)"
  by (auto simp: gate_ok_def alertIfNew_def)

lemma gate_ok_foldl: "gate_ok m \<Longrightarrow> gate_ok (foldl alertIfNew m cs)"
  by (induction cs arbitrary: m) (simp_all add: gate_ok_alertIfNew)

lemma alerted_mono_alertIfNew: "alertedConsensus m \<subseteq> alertedConsensus (alertIfNew m c)"
  by (auto simp: alertIfNew_def)

lemma alerted_mono_foldl: "alertedConsensus m \<subseteq> alertedConsensus (foldl alertIfNew m cs)"
proof (induction cs arbitrary: m)
  case Nil
  show ?case by simp
next
  case (Cons c cs)
  show ?case
    using Cons.IH [of "alertIfNew m c"] alerted_mono_alertIfNew [of m c] by auto
qed

lemma add_gate:
  "alerts (addPurchasesToConsensusTracking now ps m) = alerts m
   \<and> alertedConsensus (addPurchasesToConsensusTracking now ps m) = alertedConsensus m"
  by (simp add: addPurchasesToConsensusTracking_def)

lemma load_gate:
  "alerts (loadManualWallets cf m) = alerts m
   \<and> alertedConsensus (loadManualWallets cf m) = alertedConsensus m
   \<and> alerts (loadManualWallets_enhanced cf m) = alerts m
   \<and> alertedConsensus (loadManualWallets_enhanced cf m) = alertedConsensus m"
  by (simp add: loadManualWallets_def loadManualWallets_enhanced_def apply_config_def
      split: config_file.split)

lemma poll_gate:
  "alerts (pollWallet poll m) = alerts m
   \<and> alertedConsensus (pollWallet poll m) = alertedConsensus m"
  by (simp add: pollWallet_def Let_def add_gate)

lemma polls_gate:
  "alerts (foldl (\<lambda>m' poll. pollWallet poll m') m polls) = alerts m
   \<and> alertedConsensus (foldl (\<lambda>m' poll. pollWallet poll m') m polls) = alertedConsensus m"
  by (induction polls arbitrary: m) (simp_all add: poll_gate)

lemma gate_ok_cong:
  "alerts m' = alerts m \<Longrightarrow> alertedConsensus m' = alertedConsensus m
     \<Longrightarrow> gate_ok m' = gate_ok m"
  by (simp add: gate_ok_def)

lemma gate_ok_analyze: "gate_ok m \<Longrightarrow> gate_ok (analyzeWhaleConsensus now m)"
  by (simp add: analyzeWhaleConsensus_def gate_ok_foldl)

lemma gate_ok_step: "gate_ok m \<Longrightarrow> gate_ok (step m ev)"
proof (cases ev)
  case (LoadConfig cf)
  then show "gate_ok m \<Longrightarrow> gate_ok (step m ev)"
    using gate_ok_cong [of "loadManualWallets cf m" m] by (simp add: load_gate)
next
  case (Track now ps)
  then show "gate_ok m \<Longrightarrow> gate_ok (step m ev)"
    using gate_ok_cong [of "addPurchasesToConsensusTracking now ps m" m] by (simp add: add_gate)
next
  case (Analyze now)
  then show "gate_ok m \<Longrightarrow> gate_ok (step m ev)"
    by (simp add: gate_ok_analyze)
next
  case (Cycle polls now)
  assume g: "gate_ok m"
  have "gate_ok (foldl (\<lambda>m' poll. pollWallet poll m') m polls)"
    using gate_ok_cong [of "foldl (\<lambda>m' poll. pollWallet poll m') m polls" m] g
    by (simp add: polls_gate)
  with Cycle show "gate_ok (step m ev)"
    by (simp add: detectWhaleConsensus_def gate_ok_analyze)
next
  case (AlertStep c)
  then show "gate_ok m \<Longrightarrow> gate_ok (step m ev)"
    by (simp add: gate_ok_alertIfNew)
qed

lemma alerted_mono_step: "alertedConsensus m \<subseteq> alertedConsensus (step m ev)"
  by (cases ev)
     (simp_all add: load_gate add_gate analyzeWhaleConsensus_def detectWhaleConsensus_def
       alerted_mono_foldl alerted_mono_alertIfNew
       order_trans [OF eq_refl [OF polls_gate [THEN conjunct2, symmetric]] alerted_mono_foldl])

lemma gate_ok_instantEntry: "gate_ok m \<Longrightarrow> gate_ok (fst (instantEntry g now q entry m))"
  by (auto simp: gate_ok_def instantEntry_def Let_def consensusId_def
      buildConsensus_enhanced_totals split: list.splits)

lemma alerted_mono_instantEntry:
  "alertedConsensus m \<subseteq> alertedConsensus (fst (instantEntry g now q entry m))"
  by (auto simp: instantEntry_def Let_def split: list.splits)

lemma gate_ok_instantEntries: "gate_ok m \<Longrightarrow> gate_ok (instantEntries g now q es m)"
proof (induction es arbitrary: m)
  case Nil
  then show ?case by simp
next
  case (Cons entry rest)
  from Cons.prems have "gate_ok (fst (instantEntry g now q entry m))"
    by (rule gate_ok_instantEntry)
  with Cons.IH [of "fst (instantEntry g now q entry m)"] show ?case
    by (auto split: prod.split option.split)
qed

lemma alerted_mono_instantEntries:
  "alertedConsensus m \<subseteq> alertedConsensus (instantEntries g now q es m)"
proof (induction es arbitrary: m)
  case Nil
  show ?case by simp
next
  case (Cons entry rest)
  show ?case
    using Cons.IH [of "fst (instantEntry g now q entry m)"]
      alerted_mono_instantEntry [of m g now q entry]
    by (auto split: prod.split option.split)
qed

lemma gate_ok_step_enhanced: "gate_ok m \<Longrightarrow> gate_ok (step_enhanced m ev)"
proof (cases ev)
  case (LoadConfigE cf)
  then show "gate_ok m \<Longrightarrow> gate_ok (step_enhanced m ev)"
    using gate_ok_cong [of "loadManualWallets_enhanced cf m" m] by (simp add: load_gate)
next
  case (TrackE now ps)
  then show "gate_ok m \<Longrightarrow> gate_ok (step_enhanced m ev)"
    using gate_ok_cong [of "addPurchasesToConsensusTracking now ps m" m] by (simp add: add_gate)
next
  case (AnalyzeE g now q)
  then show "gate_ok m \<Longrightarrow> gate_ok (step_enhanced m ev)"
    by (auto simp: analyzeEnhancedWhaleConsensus_def gate_ok_foldl split: sum.splits)
next
  case (InstantE g now q)
  then show "gate_ok m \<Longrightarrow> gate_ok (step_enhanced m ev)"
    by (simp add: instantEnhancedConsensusCheck_def gate_ok_instantEntries)
next
  case (AlertStepE c)
  then show "gate_ok m \<Longrightarrow> gate_ok (step_enhanced m ev)"
    by (simp add: gate_ok_alertIfNew)
qed

lemma alerted_mono_step_enhanced: "alertedConsensus m \<subseteq> alertedConsensus (step_enhanced m ev)"
proof (cases ev)
  case (AnalyzeE g now q)
  then show ?thesis
    using alerted_mono_foldl [of m]
    by (auto simp: analyzeEnhancedWhaleConsensus_def split: sum.splits)
qed (simp_all add: load_gate add_gate instantEnhancedConsensusCheck_def
      alerted_mono_instantEntries alerted_mono_alertIfNew)

lemma gate_ok_run_from: "gate_ok m \<Longrightarrow> gate_ok (foldl step m evs)"
  by (induction evs arbitrary: m) (simp_all add: gate_ok_step)

lemma gate_ok_run_enhanced_from: "gate_ok m \<Longrightarrow> gate_ok (foldl step_enhanced m evs)"
  by (induction evs arbitrary: m) (simp_all add: gate_ok_step_enhanced)

lemma alerted_mono_run_from: "alertedConsensus m \<subseteq> alertedConsensus (foldl step m evs)"
proof (induction evs arbitrary: m)
  case Nil
  show ?case by simp
next
  case (Cons ev evs)
  show ?case
    using Cons.IH [of "step m ev"] alerted_mono_step [of m ev] by auto
qed

lemma alerted_mono_run_enhanced_from:
  "alertedConsensus m \<subseteq> alertedConsensus (foldl step_enhanced m evs)"
proof (induction evs arbitrary: m)
  case Nil
  show ?case by simp
next
  case (Cons ev evs)
  show ?case
    using Cons.IH [of "step_enhanced m ev"] alerted_mono_step_enhanced [of m ev] by auto
qed

lemma gate_ok_signals: "gate_ok m \<Longrightarrow> distinct (map signalOf (alerts m))"
proof -
  assume g: "gate_ok m"
  have "consensusId = (\<lambda>s. signalId (fst s) (snd s)) \<circ> (signalOf :: 'a WhaleConsensus_scheme \<Rightarrow> _)"
    by (simp add: fun_eq_iff consensusId_def signalOf_def)
  with g have "distinct (map (\<lambda>s. signalId (fst s) (snd s)) (map signalOf (alerts m)))"
    by (simp add: gate_ok_def)
  then show ?thesis
    by (rule distinct_map [THEN iffD1, THEN conjunct1])
qed

text \<open>
  C1: at-most-once alerting. Whatever the sequence of configuration loads, insertions,
  evaluations, cycles and single iterations of the alert loop since the start of the
  process, no two alerts handed to the sink carry the same signal (token mint, whale count),
  and \<^verbatim>\<open>alertedConsensus\<close> only grows, in the base monitor and in the enhanced monitor. A
  window that empties and refills to the same count is one such sequence.
\<close>

theorem alert_at_most_once:
  "distinct (map signalOf (alerts (run events)))
   \<and> alertedConsensus (run events) \<subseteq> alertedConsensus (run (events @ later))
   \<and> distinct (map signalOf (alerts (run_enhanced events')))
   \<and> alertedConsensus (run_enhanced events') \<subseteq> alertedConsensus (run_enhanced (events' @ later'))"
proof -
  have "gate_ok new_monitor" and "gate_ok new_monitor_enhanced"
    by (simp_all add: gate_ok_def new_monitor_def new_monitor_enhanced_def)
  then have "gate_ok (run events)" and "gate_ok (run_enhanced events')"
    by (simp_all add: run_def run_enhanced_def gate_ok_run_from gate_ok_run_enhanced_from)
  then show ?thesis
    using alerted_mono_run_from [of "run events" later]
      alerted_mono_run_enhanced_from [of "run_enhanced events'" later']
    by (simp add: gate_ok_signals run_def run_enhanced_def)
qed

lemma analyze_single:
  assumes "recentWhalePurchases m = [(mint, ps)]"
  shows "analyzeWhaleConsensus now m =
     (if MIN_WHALES_FOR_CONSENSUS m
           \<le> int (length (firstPerWallet (filter (within_window now (consensusTimeWindow m)) ps)))
      then alertIfNew m
             (buildConsensus mint
                (firstPerWallet (filter (within_window now (consensusTimeWindow m)) ps)))
      else m)"
  by (simp add: analyzeWhaleConsensus_def consensusTokens_def consensusOfEntry_def
      sortByStrength_def uniquePurchasesOf_firstPerWallet assms Let_def)

lemma example_monitor_eq:
  "example_monitor =
     new_monitor\<lparr> recentWhalePurchases :=
        [(''T'', [whale ''W1'' ''T'' (1/2) 0, whale ''W2'' ''T'' 1 300000])] \<rparr>"
  by (simp add: example_monitor_def addPurchasesToConsensusTracking_def
      track_purchase_def Let_def map_has_def within_window_def new_monitor_def whale_def)

lemma refill_run:
  "alerts (run refill_events)
     = [buildConsensus ''T'' [whale ''W1'' ''T'' (1/2) 0, whale ''W2'' ''T'' 1 300000]]"
proof -
  let ?e1 = "whale ''W1'' ''T'' (1/2) 0" and ?e2 = "whale ''W2'' ''T'' 1 300000"
  let ?e3 = "whale ''W1'' ''T'' 2 2390000" and ?e4 = "whale ''W2'' ''T'' 3 2395000"
  let ?c = "buildConsensus ''T'' [?e1, ?e2]"
  let ?s1 = "new_monitor\<lparr> recentWhalePurchases := [(''T'', [?e1, ?e2])] \<rparr>"
  let ?s2 = "?s1\<lparr> alertedConsensus := {''T_2''}, alerts := [?c] \<rparr>"
  let ?s4 = "?s2\<lparr> recentWhalePurchases := [(''T'', [?e3, ?e4])] \<rparr>"
  have s1: "step new_monitor (Track 301000 [?e1, ?e2]) = ?s1"
    using example_monitor_eq by (simp add: example_monitor_def)
  have s2: "step ?s1 (Analyze 302000) = ?s2"
    by (simp add: analyze_single [of _ "''T''" "[?e1, ?e2]"] new_monitor_def within_window_def
        whale_def alertIfNew_def consensusId_def buildConsensus_totals signalId_T_Suc)
  have s3: "step ?s2 (Analyze 2000000) = ?s2"
    by (simp add: analyze_single [of _ "''T''" "[?e1, ?e2]"] new_monitor_def within_window_def
        whale_def)
  have s4: "step ?s2 (Track 2400000 [?e3, ?e4]) = ?s4"
    by (simp add: addPurchasesToConsensusTracking_def
      track_purchase_def Let_def map_has_def within_window_def new_monitor_def whale_def)
  have s5: "step ?s4 (Analyze 2401000) = ?s4"
    by (simp add: analyze_single [of _ "''T''" "[?e3, ?e4]"] new_monitor_def within_window_def
        whale_def alertIfNew_def consensusId_def buildConsensus_totals signalId_T_Suc)
  show ?thesis
    unfolding run_def refill_events_def foldl.simps s1 s2 s3 s4 s5 by simp
qed

theorem alert_at_most_once_witness:
  "map signalOf (alerts (run refill_events)) = [(''T'', 2)]
   \<and> distinct (map signalOf (alerts (run refill_events)))"
  using alert_at_most_once [of refill_events]
  by (simp add: refill_run signalOf_def buildConsensus_totals)

section \<open>The threshold\<close>

lemma consensusOfEntry_cases:
  "consensusOfEntry now w k entry =
     (if k \<le> int (length (uniquePurchasesOf (filter (within_window now w) (snd entry))))
      then [buildConsensus (fst entry)
              (uniquePurchasesOf (filter (within_window now w) (snd entry)))]
      else [])"
  by (simp add: consensusOfEntry_def Let_def)

lemma tokenMint_concat:
  "map WhaleConsensus.tokenMint (concat (map (consensusOfEntry now w k) entries))
     = map fst (filter (\<lambda>en. k \<le> int (length (uniquePurchasesOf
                                   (filter (within_window now w) (snd en))))) entries)"
  by (induction entries) (simp_all add: consensusOfEntry_cases buildConsensus_totals)

lemma distinct_tokenMint_consensusTokens:
  "distinct (map fst (recentWhalePurchases m))
     \<Longrightarrow> distinct (map WhaleConsensus.tokenMint (consensusTokens now m))"
  by (simp add: consensusTokens_def tokenMint_concat distinct_map_filter)

lemma distinct_map_finer:
  assumes "distinct (map f xs)" and "\<And>x y. g x = g y \<Longrightarrow> f x = f y"
  shows "distinct (map g xs)"
proof -
  from assms(1) have d: "distinct xs" and i: "inj_on f (set xs)"
    by (simp_all add: distinct_map)
  have "inj_on g (set xs)"
    by (rule inj_onI) (use i assms(2) in \<open>auto dest: inj_onD\<close>)
  with d show ?thesis
    by (simp add: distinct_map)
qed

lemma distinct_ids_of_mints:
  "distinct (map WhaleConsensus.tokenMint cs) \<Longrightarrow> distinct (map consensusId cs)"
proof (rule distinct_map_finer [where f = WhaleConsensus.tokenMint])
  assume "distinct (map WhaleConsensus.tokenMint cs)"
  then show "distinct (map WhaleConsensus.tokenMint cs)" .
next
  fix x y :: "'a WhaleConsensus_scheme"
  assume "consensusId x = consensusId y"
  then show "WhaleConsensus.tokenMint x = WhaleConsensus.tokenMint y"
    by (auto simp: consensusId_def dest: signalId_inj)
qed

lemma distinct_ids_sorted:
  "distinct (map consensusId cs) \<Longrightarrow> distinct (map consensusId (sortByStrength cs))"
  by (simp add: distinct_map sortByStrength_def)

lemma alerts_foldl_distinct:
  "distinct (map consensusId cs)
     \<Longrightarrow> alerts (foldl alertIfNew m cs)
         = alerts m @ filter (\<lambda>c. consensusId c \<notin> alertedConsensus m) cs"
proof (induction cs arbitrary: m)
  case Nil
  show ?case by simp
next
  case (Cons c cs)
  from Cons.prems have d: "distinct (map consensusId cs)"
    and n: "consensusId c \<notin> consensusId ` set cs"
    by simp_all
  show ?case
  proof (cases "consensusId c \<in> alertedConsensus m")
    case True
    with Cons.IH [OF d, of m] show ?thesis
      by (simp add: alertIfNew_def)
  next
    case False
    have "filter (\<lambda>x. consensusId x \<notin> insert (consensusId c) (alertedConsensus m)) cs
          = filter (\<lambda>x. consensusId x \<notin> alertedConsensus m) cs"
      using n by (intro filter_cong) (auto simp: image_iff)
    with False Cons.IH [OF d, of "alertIfNew m c"] show ?thesis
      by (simp add: alertIfNew_def)
  qed
qed

lemma new_alerts_analyze:
  assumes "distinct (map fst (recentWhalePurchases m))"
  shows "drop (length (alerts m)) (alerts (analyzeWhaleConsensus now m))
     = filter (\<lambda>c. consensusId c \<notin> alertedConsensus m)
         (sortByStrength (consensusTokens now m))"
  using alerts_foldl_distinct [OF distinct_ids_sorted [OF distinct_ids_of_mints
        [OF distinct_tokenMint_consensusTokens [OF assms, of now]]], of m]
  by (simp add: analyzeWhaleConsensus_def)

lemma consensusTokens_of_mint:
  assumes "distinct (map fst (recentWhalePurchases m))"
    and "(mint, purchases) \<in> set (recentWhalePurchases m)"
  shows "c \<in> set (consensusTokens now m) \<and> WhaleConsensus.tokenMint c = mint
     \<longleftrightarrow> c \<in> set (consensusOfEntry now (consensusTimeWindow m) (MIN_WHALES_FOR_CONSENSUS m)
                     (mint, purchases))"
proof
  assume l: "c \<in> set (consensusTokens now m) \<and> WhaleConsensus.tokenMint c = mint"
  then obtain en where en: "en \<in> set (recentWhalePurchases m)"
    and c: "c \<in> set (consensusOfEntry now (consensusTimeWindow m) (MIN_WHALES_FOR_CONSENSUS m) en)"
    by (auto simp: consensusTokens_def)
  from c l have "fst en = mint"
    by (auto simp: consensusOfEntry_cases buildConsensus_totals split: if_splits)
  with en assms have "en = (mint, purchases)"
    by (metis eq_key_imp_eq_value prod.collapse)
  with c show "c \<in> set (consensusOfEntry now (consensusTimeWindow m)
                     (MIN_WHALES_FOR_CONSENSUS m) (mint, purchases))"
    by simp
next
  assume "c \<in> set (consensusOfEntry now (consensusTimeWindow m) (MIN_WHALES_FOR_CONSENSUS m)
                     (mint, purchases))"
  then have r: "c \<in> set (consensusOfEntry now (consensusTimeWindow m) (MIN_WHALES_FOR_CONSENSUS m)
                     (mint, purchases))" .
  with assms(2) have "c \<in> set (consensusTokens now m)"
    unfolding consensusTokens_def by (auto intro: bexI [of _ "(mint, purchases)"])
  moreover from r have "WhaleConsensus.tokenMint c = mint"
    by (auto simp: consensusOfEntry_cases buildConsensus_totals split: if_splits)
  ultimately show "c \<in> set (consensusTokens now m) \<and> WhaleConsensus.tokenMint c = mint"
    by simp
qed

lemma distinct_keys_track:
  "distinct (map fst m) \<Longrightarrow> distinct (map fst (track_purchase now w m p))"
  by (simp add: track_purchase_def Let_def distinct_map_set)

lemma distinct_keys_add:
  "distinct (map fst (recentWhalePurchases m))
     \<Longrightarrow> distinct (map fst (recentWhalePurchases (addPurchasesToConsensusTracking now ps m)))"
proof -
  have "distinct (map fst s) \<Longrightarrow> distinct (map fst (foldl (track_purchase now w) s ps))"
    for s w
    by (induction ps arbitrary: s) (simp_all add: distinct_keys_track)
  then show "distinct (map fst (recentWhalePurchases m))
     \<Longrightarrow> distinct (map fst (recentWhalePurchases (addPurchasesToConsensusTracking now ps m)))"
    by (simp add: addPurchasesToConsensusTracking_def)
qed

lemma distinct_keys_polls:
  "distinct (map fst (recentWhalePurchases m))
     \<Longrightarrow> distinct (map fst (recentWhalePurchases (foldl (\<lambda>m' poll. pollWallet poll m') m polls)))"
  by (induction polls arbitrary: m) (simp_all add: pollWallet_def Let_def distinct_keys_add)

lemma distinct_keys_step:
  "distinct (map fst (recentWhalePurchases m))
     \<Longrightarrow> distinct (map fst (recentWhalePurchases (step m ev)))"
  by (cases ev)
     (simp_all add: loadManualWallets_def apply_config_def distinct_keys_add
       analyze_keeps_store detectWhaleConsensus_def distinct_keys_polls alertIfNew_fields
       split: config_file.split)

text \<open>The keys of the store are distinct in every state the process reaches.\<close>

lemma distinct_keys_run: "distinct (map fst (recentWhalePurchases (run events)))"
proof -
  have "distinct (map fst (recentWhalePurchases s))
     \<Longrightarrow> distinct (map fst (recentWhalePurchases (foldl step s events)))" for s
    by (induction events arbitrary: s) (simp_all add: distinct_keys_step)
  then show ?thesis
    by (simp add: run_def new_monitor_def)
qed

lemma distinct_keys_step_enhanced:
  "distinct (map fst (recentWhalePurchases m))
     \<Longrightarrow> distinct (map fst (recentWhalePurchases (step_enhanced m ev)))"
proof (cases ev)
  case (LoadConfigE cf)
  assume "distinct (map fst (recentWhalePurchases m))"
  with LoadConfigE show ?thesis
    by (simp add: loadManualWallets_enhanced_def apply_config_def split: config_file.split)
next
  case (TrackE t ps)
  assume "distinct (map fst (recentWhalePurchases m))"
  with TrackE show ?thesis
    by (simp add: distinct_keys_add)
next
  case (AnalyzeE g t q)
  assume "distinct (map fst (recentWhalePurchases m))"
  with AnalyzeE analyzeEnhanced_keeps_store [of g t q m] show ?thesis
    by (simp split: sum.split)
next
  case (InstantE g t q)
  assume "distinct (map fst (recentWhalePurchases m))"
  with InstantE show ?thesis
    by (simp add: instantEnhancedConsensusCheck_def instantEntries_fields)
next
  case (AlertStepE c)
  assume "distinct (map fst (recentWhalePurchases m))"
  with AlertStepE show ?thesis
    by (simp add: alertIfNew_fields)
qed

lemma distinct_keys_run_enhanced:
  "distinct (map fst (recentWhalePurchases (run_enhanced events)))"
proof -
  have "distinct (map fst (recentWhalePurchases s))
     \<Longrightarrow> distinct (map fst (recentWhalePurchases (foldl step_enhanced s events)))" for s
    by (induction events arbitrary: s) (simp_all add: distinct_keys_step_enhanced)
  then show ?thesis
    by (simp add: run_enhanced_def new_monitor_enhanced_def)
qed

lemma consensusOfEntry_enhanced_Inr:
  assumes "consensusOfEntry_enhanced g now q w k entry = Inr cs"
  shows "cs = (if k \<le> int (length (firstPerWallet (filter (within_window now w) (snd entry))))
               then [buildConsensus_enhanced (g (fst entry)) (fst entry)
                       (map (\<lambda>p. p\<lparr> amountUsd := js_mul (amountSol p) q \<rparr>)
                          (firstPerWallet (filter (within_window now w) (snd entry))))]
               else [])"
  using assms
  by (auto simp: consensusOfEntry_enhanced_def Let_def uniquePurchasesOf_enhanced_firstPerWallet
      split: if_splits list.splits)

lemma collect_concat:
  "collect f xs = Inr ys \<Longrightarrow> (\<And>x cs. f x = Inr cs \<Longrightarrow> cs = h x) \<Longrightarrow> ys = concat (map h xs)"
proof (induction xs arbitrary: ys)
  case Nil
  then show ?case by simp
next
  case (Cons x xs)
  from Cons.prems(1) obtain a b where a: "f x = Inr a" and b: "collect f xs = Inr b"
    and y: "ys = a @ b"
    by (auto split: sum.splits)
  from Cons.IH [OF b Cons.prems(2)] Cons.prems(2) [OF a] y show ?case
    by simp
qed

lemma keyed_concat_distinct:
  assumes "distinct (map fst entries)"
    and "\<And>en. h en = [] \<or> (\<exists>c. h en = [c] \<and> WhaleConsensus.tokenMint c = fst en)"
  shows "distinct (map WhaleConsensus.tokenMint (concat (map h entries)))"
  using assms(1)
proof (induction entries)
  case Nil
  show ?case by simp
next
  case (Cons en rest)
  have r: "WhaleConsensus.tokenMint c \<in> fst ` set rest"
    if "c \<in> set (concat (map h rest))" for c
  proof -
    from that obtain e where e: "e \<in> set rest" and c: "c \<in> set (h e)"
      by auto
    from c assms(2) [of e] have "WhaleConsensus.tokenMint c = fst e"
      by auto
    with e show ?thesis
      by auto
  qed
  from Cons have d: "distinct (map WhaleConsensus.tokenMint (concat (map h rest)))"
    and n: "fst en \<notin> fst ` set rest"
    by simp_all
  from assms(2) [of en] show ?case
  proof
    assume "h en = []"
    with d show ?thesis
      by simp
  next
    assume "\<exists>c. h en = [c] \<and> WhaleConsensus.tokenMint c = fst en"
    then obtain c where hc: "h en = [c]" and k: "WhaleConsensus.tokenMint c = fst en"
      by auto
    from r n k
    have "WhaleConsensus.tokenMint c \<notin> WhaleConsensus.tokenMint ` set (concat (map h rest))"
      by (metis imageE)
    with d hc show ?thesis
      by simp
  qed
qed

lemma keyed_concat_of_key:
  assumes "distinct (map fst entries)" and "(k, v) \<in> set entries"
    and "\<And>en. h en = [] \<or> (\<exists>c. h en = [c] \<and> WhaleConsensus.tokenMint c = fst en)"
  shows "c \<in> set (concat (map h entries)) \<and> WhaleConsensus.tokenMint c = k
           \<longleftrightarrow> c \<in> set (h (k, v))"
proof
  assume l: "c \<in> set (concat (map h entries)) \<and> WhaleConsensus.tokenMint c = k"
  then obtain en where en: "en \<in> set entries" and c: "c \<in> set (h en)"
    by auto
  from c assms(3) [of en] l have "fst en = k"
    by auto
  with en assms(1,2) have "en = (k, v)"
    by (metis eq_key_imp_eq_value prod.collapse)
  with c show "c \<in> set (h (k, v))"
    by simp
next
  assume r: "c \<in> set (h (k, v))"
  with assms(2) have "c \<in> set (concat (map h entries))"
    by (auto intro: bexI [of _ "(k, v)"])
  moreover from r assms(3) [of "(k, v)"] have "WhaleConsensus.tokenMint c = k"
    by auto
  ultimately show "c \<in> set (concat (map h entries)) \<and> WhaleConsensus.tokenMint c = k"
    by simp
qed

lemma instantEntry_alertIfNew:
  assumes "1 \<le> MIN_WHALES_FOR_CONSENSUS m"
  shows "instantEntry g now q entry m =
     (foldl alertIfNew m
        (if MIN_WHALES_FOR_CONSENSUS m
              \<le> int (length (firstPerWallet
                     (filter (within_window now (consensusTimeWindow m)) (snd entry))))
         then [buildConsensus_enhanced (g (fst entry)) (fst entry)
                 (map (\<lambda>p. p\<lparr> amountUsd := js_mul (amountSol p) q \<rparr>)
                    (firstPerWallet
                       (filter (within_window now (consensusTimeWindow m)) (snd entry))))]
         else []), None)"
  using assms
  by (auto simp: instantEntry_def Let_def uniquePurchasesOf_firstPerWallet alertIfNew_def
      consensusId_def buildConsensus_enhanced_totals split: list.splits)

lemma instantEntries_alertIfNew:
  assumes "1 \<le> MIN_WHALES_FOR_CONSENSUS m"
  shows "instantEntries g now q es m =
     foldl alertIfNew m
       (concat (map (\<lambda>entry.
          if MIN_WHALES_FOR_CONSENSUS m
               \<le> int (length (firstPerWallet
                      (filter (within_window now (consensusTimeWindow m)) (snd entry))))
          then [buildConsensus_enhanced (g (fst entry)) (fst entry)
                  (map (\<lambda>p. p\<lparr> amountUsd := js_mul (amountSol p) q \<rparr>)
                     (firstPerWallet
                        (filter (within_window now (consensusTimeWindow m)) (snd entry))))]
          else []) es))"
  using assms
proof (induction es arbitrary: m)
  case Nil
  show ?case by simp
next
  case (Cons entry rest)
  let ?h = "\<lambda>m entry.
          if MIN_WHALES_FOR_CONSENSUS m
               \<le> int (length (firstPerWallet
                      (filter (within_window now (consensusTimeWindow m)) (snd entry))))
          then [buildConsensus_enhanced (g (fst entry)) (fst entry)
                  (map (\<lambda>p. p\<lparr> amountUsd := js_mul (amountSol p) q \<rparr>)
                     (firstPerWallet
                        (filter (within_window now (consensusTimeWindow m)) (snd entry))))]
          else []"
  let ?m1 = "foldl alertIfNew m (?h m entry)"
  have s: "instantEntry g now q entry m = (?m1, None)"
    by (rule instantEntry_alertIfNew [OF Cons.prems])
  have f: "MIN_WHALES_FOR_CONSENSUS ?m1 = MIN_WHALES_FOR_CONSENSUS m"
    "consensusTimeWindow ?m1 = consensusTimeWindow m"
    by (simp_all only: foldl_alertIfNew_fields)
  from Cons.prems f have "1 \<le> MIN_WHALES_FOR_CONSENSUS ?m1"
    by simp
  from Cons.IH [OF this] have
    "instantEntries g now q rest ?m1 = foldl alertIfNew ?m1 (concat (map (?h m) rest))"
    unfolding f .
  then show ?case
    unfolding instantEntries.simps s by (simp only: prod.case option.case concat.simps list.map foldl_append)
qed


lemma entry_enhanced_keyed:
  "(if k \<le> int (length us) then [buildConsensus_enhanced md (fst en) (f us)] else []) = []
   \<or> (\<exists>c. (if k \<le> int (length us) then [buildConsensus_enhanced md (fst en) (f us)] else [])
              = [c] \<and> WhaleConsensus.tokenMint c = fst en)"
  by (simp add: buildConsensus_enhanced_totals)

lemma new_alerts_analyze_enhanced:
  assumes "distinct (map fst (recentWhalePurchases x))"
    and "analyzeEnhancedWhaleConsensus g now q x = Inr x'"
  shows "drop (length (alerts x)) (alerts x')
     = filter (\<lambda>c. consensusId c \<notin> alertedConsensus x)
         (sortByStrength (concat (map (\<lambda>entry.
            if MIN_WHALES_FOR_CONSENSUS x
                 \<le> int (length (firstPerWallet
                        (filter (within_window now (consensusTimeWindow x)) (snd entry))))
            then [buildConsensus_enhanced (g (fst entry)) (fst entry)
                    (map (\<lambda>p. p\<lparr> amountUsd := js_mul (amountSol p) q \<rparr>)
                       (firstPerWallet
                          (filter (within_window now (consensusTimeWindow x)) (snd entry))))]
            else []) (recentWhalePurchases x))))"
proof -
  let ?h = "\<lambda>entry.
            if MIN_WHALES_FOR_CONSENSUS x
                 \<le> int (length (firstPerWallet
                        (filter (within_window now (consensusTimeWindow x)) (snd entry))))
            then [buildConsensus_enhanced (g (fst entry)) (fst entry)
                    (map (\<lambda>p. p\<lparr> amountUsd := js_mul (amountSol p) q \<rparr>)
                       (firstPerWallet
                          (filter (within_window now (consensusTimeWindow x)) (snd entry))))]
            else []"
  from assms(2) obtain tokens where
    t: "collect (consensusOfEntry_enhanced g now q (consensusTimeWindow x)
                   (MIN_WHALES_FOR_CONSENSUS x)) (recentWhalePurchases x) = Inr tokens"
    and x': "x' = foldl alertIfNew x (sortByStrength tokens)"
    by (auto simp: analyzeEnhancedWhaleConsensus_def split: sum.splits)
  have tk: "tokens = concat (map ?h (recentWhalePurchases x))"
    by (rule collect_concat [OF t]) (rule consensusOfEntry_enhanced_Inr)
  have "distinct (map WhaleConsensus.tokenMint (concat (map ?h (recentWhalePurchases x))))"
    by (rule keyed_concat_distinct [OF assms(1)]) (rule entry_enhanced_keyed)
  from alerts_foldl_distinct [OF distinct_ids_sorted [OF distinct_ids_of_mints [OF this]], of x]
  show ?thesis
    unfolding x' tk by simp
qed

lemma new_alerts_instant:
  assumes "distinct (map fst (recentWhalePurchases x))"
    and "1 \<le> MIN_WHALES_FOR_CONSENSUS x"
  shows "drop (length (alerts x)) (alerts (instantEnhancedConsensusCheck g now q x))
     = filter (\<lambda>c. consensusId c \<notin> alertedConsensus x)
         (concat (map (\<lambda>entry.
            if MIN_WHALES_FOR_CONSENSUS x
                 \<le> int (length (firstPerWallet
                        (filter (within_window now (consensusTimeWindow x)) (snd entry))))
            then [buildConsensus_enhanced (g (fst entry)) (fst entry)
                    (map (\<lambda>p. p\<lparr> amountUsd := js_mul (amountSol p) q \<rparr>)
                       (firstPerWallet
                          (filter (within_window now (consensusTimeWindow x)) (snd entry))))]
            else []) (recentWhalePurchases x)))"
proof -
  let ?h = "\<lambda>entry.
            if MIN_WHALES_FOR_CONSENSUS x
                 \<le> int (length (firstPerWallet
                        (filter (within_window now (consensusTimeWindow x)) (snd entry))))
            then [buildConsensus_enhanced (g (fst entry)) (fst entry)
                    (map (\<lambda>p. p\<lparr> amountUsd := js_mul (amountSol p) q \<rparr>)
                       (firstPerWallet
                          (filter (within_window now (consensusTimeWindow x)) (snd entry))))]
            else []"
  have "distinct (map WhaleConsensus.tokenMint (concat (map ?h (recentWhalePurchases x))))"
    by (rule keyed_concat_distinct [OF assms(1)]) (rule entry_enhanced_keyed)
  from alerts_foldl_distinct [OF distinct_ids_of_mints [OF this], of x]
  show ?thesis
    unfolding instantEnhancedConsensusCheck_def instantEntries_alertIfNew [OF assms(2)]
    by simp
qed

lemma enhanced_token_fired:
  assumes "distinct (map fst (recentWhalePurchases x))"
    and "(mint, purchases) \<in> set (recentWhalePurchases x)"
  shows "c \<in> set (concat (map (\<lambda>entry.
            if MIN_WHALES_FOR_CONSENSUS x
                 \<le> int (length (firstPerWallet
                        (filter (within_window now (consensusTimeWindow x)) (snd entry))))
            then [buildConsensus_enhanced (g (fst entry)) (fst entry)
                    (map (\<lambda>p. p\<lparr> amountUsd := js_mul (amountSol p) q \<rparr>)
                       (firstPerWallet
                          (filter (within_window now (consensusTimeWindow x)) (snd entry))))]
            else []) (recentWhalePurchases x)))
         \<and> consensusId c \<notin> alertedConsensus x \<and> WhaleConsensus.tokenMint c = mint
     \<longleftrightarrow> MIN_WHALES_FOR_CONSENSUS x
           \<le> int (length (firstPerWallet
                  (filter (within_window now (consensusTimeWindow x)) purchases)))
         \<and> c = buildConsensus_enhanced (g mint) mint
                 (map (\<lambda>p. p\<lparr> amountUsd := js_mul (amountSol p) q \<rparr>)
                    (firstPerWallet
                       (filter (within_window now (consensusTimeWindow x)) purchases)))
         \<and> signalId mint (length (firstPerWallet
              (filter (within_window now (consensusTimeWindow x)) purchases)))
             \<notin> alertedConsensus x"
proof -
  let ?h = "\<lambda>entry.
            if MIN_WHALES_FOR_CONSENSUS x
                 \<le> int (length (firstPerWallet
                        (filter (within_window now (consensusTimeWindow x)) (snd entry))))
            then [buildConsensus_enhanced (g (fst entry)) (fst entry)
                    (map (\<lambda>p. p\<lparr> amountUsd := js_mul (amountSol p) q \<rparr>)
                       (firstPerWallet
                          (filter (within_window now (consensusTimeWindow x)) (snd entry))))]
            else []"
  have k: "c \<in> set (concat (map ?h (recentWhalePurchases x))) \<and> WhaleConsensus.tokenMint c = mint
           \<longleftrightarrow> c \<in> set (?h (mint, purchases))"
    by (rule keyed_concat_of_key [OF assms]) (rule entry_enhanced_keyed)
  have "c \<in> set (concat (map ?h (recentWhalePurchases x)))
         \<and> consensusId c \<notin> alertedConsensus x \<and> WhaleConsensus.tokenMint c = mint
     \<longleftrightarrow> c \<in> set (?h (mint, purchases)) \<and> consensusId c \<notin> alertedConsensus x"
    using k by blast
  also have "\<dots> \<longleftrightarrow> MIN_WHALES_FOR_CONSENSUS x
           \<le> int (length (firstPerWallet
                  (filter (within_window now (consensusTimeWindow x)) purchases)))
         \<and> c = buildConsensus_enhanced (g mint) mint
                 (map (\<lambda>p. p\<lparr> amountUsd := js_mul (amountSol p) q \<rparr>)
                    (firstPerWallet
                       (filter (within_window now (consensusTimeWindow x)) purchases)))
         \<and> signalId mint (length (firstPerWallet
              (filter (within_window now (consensusTimeWindow x)) purchases)))
             \<notin> alertedConsensus x"
    by (auto simp: consensusId_def buildConsensus_enhanced_totals)
  finally show ?thesis .
qed


text \<open>
  C4: threshold exactness. For a token of the store (a \<^verbatim>\<open>Map\<close>, so its keys are distinct)
  with \<open>u\<close> the unique whales of its window at \<open>now\<close>: the token qualifies exactly when
  \<open>length u \<ge> MIN_WHALES_FOR_CONSENSUS\<close>; the evaluation at \<open>now\<close> hands an alert for the
  token to the sink exactly when it qualifies and its signal has not been fired before.
  With a minimum of 2, exactly one unique whale gives no alert, and exactly two give the
  alert in that evaluation provided the signal (token, 2) was not fired before. This holds
  for \<^verbatim>\<open>analyzeWhaleConsensus\<close> of the base monitor and, in the enhanced monitor, for
  \<^verbatim>\<open>analyzeEnhancedWhaleConsensus\<close> whenever it returns, which it does with a minimum of at
  least 1, and for \<^verbatim>\<open>instantEnhancedConsensusCheck\<close> with a minimum of at least 1; the alert of
  the enhanced monitor is the consensus of the unique whales priced at the quote. The
  enhanced evaluation drops an entry under the same test. (The keys are distinct in every
  state either process reaches, by \<open>distinct_keys_run\<close> and \<open>distinct_keys_run_enhanced\<close>.)
\<close>

theorem threshold_exact:
  fixes m :: "(WhaleConsensus, 'z) Monitor_scheme"
    and x :: "(EnhancedWhaleConsensus, 'y) Monitor_scheme"
    and g :: "string \<Rightarrow> TokenMarketData option" and q :: rat and mint :: string
  defines "u \<equiv> \<lambda>now purchases.
     uniquePurchasesOf (filter (within_window now (consensusTimeWindow m)) purchases)"
  defines "fired \<equiv> \<lambda>now. set (drop (length (alerts m)) (alerts (analyzeWhaleConsensus now m)))"
  defines "ux \<equiv> \<lambda>now purchases.
     uniquePurchasesOf (filter (within_window now (consensusTimeWindow x)) purchases)"
  defines "cx \<equiv> \<lambda>now purchases. buildConsensus_enhanced (g mint) mint
     (uniquePurchasesOf_enhanced q (filter (within_window now (consensusTimeWindow x)) purchases))"
  defines "firedI \<equiv> \<lambda>now.
     set (drop (length (alerts x)) (alerts (instantEnhancedConsensusCheck g now q x)))"
  shows "(distinct (map fst (recentWhalePurchases m))
      \<and> (mint, purchases) \<in> set (recentWhalePurchases m) \<longrightarrow>
      ((\<exists>c \<in> set (consensusTokens now m). WhaleConsensus.tokenMint c = mint)
           \<longleftrightarrow> MIN_WHALES_FOR_CONSENSUS m \<le> int (length (u now purchases)))
      \<and> ((\<exists>c \<in> fired now. WhaleConsensus.tokenMint c = mint)
           \<longleftrightarrow> MIN_WHALES_FOR_CONSENSUS m \<le> int (length (u now purchases))
               \<and> signalId mint (length (u now purchases)) \<notin> alertedConsensus m)
      \<and> (MIN_WHALES_FOR_CONSENSUS m = 2 \<and> length (u now purchases) = 1
            \<longrightarrow> \<not> (\<exists>c \<in> fired now. WhaleConsensus.tokenMint c = mint))
      \<and> (MIN_WHALES_FOR_CONSENSUS m = 2 \<and> length (u now purchases) = 2
            \<and> signalId mint 2 \<notin> alertedConsensus m
            \<longrightarrow> buildConsensus mint (u now purchases) \<in> fired now))
   \<and> (distinct (map fst (recentWhalePurchases x))
      \<and> (mint, purchases) \<in> set (recentWhalePurchases x) \<longrightarrow>
      (1 \<le> MIN_WHALES_FOR_CONSENSUS x
         \<longrightarrow> (\<exists>r. analyzeEnhancedWhaleConsensus g now q x = Inr r))
      \<and> (analyzeEnhancedWhaleConsensus g now q x = Inr x' \<longrightarrow>
           ((\<exists>c \<in> set (drop (length (alerts x)) (alerts x')). WhaleConsensus.tokenMint c = mint)
              \<longleftrightarrow> MIN_WHALES_FOR_CONSENSUS x \<le> int (length (ux now purchases))
                  \<and> signalId mint (length (ux now purchases)) \<notin> alertedConsensus x))
      \<and> (MIN_WHALES_FOR_CONSENSUS x = 2 \<and> length (ux now purchases) = 1
            \<longrightarrow> (\<exists>r. analyzeEnhancedWhaleConsensus g now q x = Inr r
                  \<and> \<not> (\<exists>c \<in> set (drop (length (alerts x)) (alerts r)).
                          WhaleConsensus.tokenMint c = mint)))
      \<and> (MIN_WHALES_FOR_CONSENSUS x = 2 \<and> length (ux now purchases) = 2
            \<and> signalId mint 2 \<notin> alertedConsensus x
            \<longrightarrow> (\<exists>r. analyzeEnhancedWhaleConsensus g now q x = Inr r
                  \<and> cx now purchases \<in> set (drop (length (alerts x)) (alerts r))))
      \<and> (1 \<le> MIN_WHALES_FOR_CONSENSUS x \<longrightarrow>
           ((\<exists>c \<in> firedI now. WhaleConsensus.tokenMint c = mint)
              \<longleftrightarrow> MIN_WHALES_FOR_CONSENSUS x \<le> int (length (ux now purchases))
                  \<and> signalId mint (length (ux now purchases)) \<notin> alertedConsensus x))
      \<and> (MIN_WHALES_FOR_CONSENSUS x = 2 \<and> length (ux now purchases) = 1
            \<longrightarrow> \<not> (\<exists>c \<in> firedI now. WhaleConsensus.tokenMint c = mint))
      \<and> (MIN_WHALES_FOR_CONSENSUS x = 2 \<and> length (ux now purchases) = 2
            \<and> signalId mint 2 \<notin> alertedConsensus x
            \<longrightarrow> cx now purchases \<in> firedI now))
   \<and> (consensusOfEntry_enhanced g now q w k (mint, purchases) = Inr []
         \<longleftrightarrow> \<not> k \<le> int (length (uniquePurchasesOf (filter (within_window now w) purchases))))"
  (is "(?DM \<longrightarrow> ?B) \<and> (?DX \<longrightarrow> ?X) \<and> ?E")
proof -
  let ?u = "u now purchases"
  let ?ux = "ux now purchases"
  let ?cx = "cx now purchases"
  have base: "((\<exists>c \<in> set (consensusTokens now m). WhaleConsensus.tokenMint c = mint)
           \<longleftrightarrow> MIN_WHALES_FOR_CONSENSUS m \<le> int (length ?u))
      \<and> ((\<exists>c \<in> fired now. WhaleConsensus.tokenMint c = mint)
           \<longleftrightarrow> MIN_WHALES_FOR_CONSENSUS m \<le> int (length ?u)
               \<and> signalId mint (length ?u) \<notin> alertedConsensus m)
      \<and> (MIN_WHALES_FOR_CONSENSUS m = 2 \<and> length ?u = 1
            \<longrightarrow> \<not> (\<exists>c \<in> fired now. WhaleConsensus.tokenMint c = mint))
      \<and> (MIN_WHALES_FOR_CONSENSUS m = 2 \<and> length ?u = 2
            \<and> signalId mint 2 \<notin> alertedConsensus m
            \<longrightarrow> buildConsensus mint ?u \<in> fired now)"
    if d: "distinct (map fst (recentWhalePurchases m))"
      and i: "(mint, purchases) \<in> set (recentWhalePurchases m)"
  proof -
    have q: "c \<in> set (consensusTokens now m) \<and> WhaleConsensus.tokenMint c = mint
       \<longleftrightarrow> MIN_WHALES_FOR_CONSENSUS m \<le> int (length ?u) \<and> c = buildConsensus mint ?u" for c
      unfolding consensusTokens_of_mint [OF d i]
      by (auto simp: consensusOfEntry_cases u_def)
    have f: "c \<in> fired now \<and> WhaleConsensus.tokenMint c = mint
       \<longleftrightarrow> MIN_WHALES_FOR_CONSENSUS m \<le> int (length ?u) \<and> c = buildConsensus mint ?u
           \<and> signalId mint (length ?u) \<notin> alertedConsensus m" for c
    proof -
      have "c \<in> fired now \<and> WhaleConsensus.tokenMint c = mint
        \<longleftrightarrow> (c \<in> set (consensusTokens now m) \<and> WhaleConsensus.tokenMint c = mint)
             \<and> consensusId c \<notin> alertedConsensus m"
        by (auto simp: fired_def new_alerts_analyze [OF d] set_sortByStrength)
      also have "\<dots> \<longleftrightarrow> MIN_WHALES_FOR_CONSENSUS m \<le> int (length ?u)
           \<and> c = buildConsensus mint ?u \<and> signalId mint (length ?u) \<notin> alertedConsensus m"
        unfolding q by (auto simp: consensusId_def buildConsensus_totals)
      finally show ?thesis .
    qed
    have a: "(\<exists>c \<in> set (consensusTokens now m). WhaleConsensus.tokenMint c = mint)
             \<longleftrightarrow> MIN_WHALES_FOR_CONSENSUS m \<le> int (length ?u)"
      using q by blast
    have b: "(\<exists>c \<in> fired now. WhaleConsensus.tokenMint c = mint)
             \<longleftrightarrow> MIN_WHALES_FOR_CONSENSUS m \<le> int (length ?u)
                 \<and> signalId mint (length ?u) \<notin> alertedConsensus m"
      using f by blast
    have c: "buildConsensus mint ?u \<in> fired now"
      if "MIN_WHALES_FOR_CONSENSUS m = 2" "length ?u = 2" "signalId mint 2 \<notin> alertedConsensus m"
      using f [of "buildConsensus mint ?u"] that by (simp add: buildConsensus_totals)
    show ?thesis
      using a b c by auto
  qed
  have enh: "(1 \<le> MIN_WHALES_FOR_CONSENSUS x
         \<longrightarrow> (\<exists>r. analyzeEnhancedWhaleConsensus g now q x = Inr r))
      \<and> (analyzeEnhancedWhaleConsensus g now q x = Inr x' \<longrightarrow>
           ((\<exists>c \<in> set (drop (length (alerts x)) (alerts x')). WhaleConsensus.tokenMint c = mint)
              \<longleftrightarrow> MIN_WHALES_FOR_CONSENSUS x \<le> int (length ?ux)
                  \<and> signalId mint (length ?ux) \<notin> alertedConsensus x))
      \<and> (MIN_WHALES_FOR_CONSENSUS x = 2 \<and> length ?ux = 1
            \<longrightarrow> (\<exists>r. analyzeEnhancedWhaleConsensus g now q x = Inr r
                  \<and> \<not> (\<exists>c \<in> set (drop (length (alerts x)) (alerts r)).
                          WhaleConsensus.tokenMint c = mint)))
      \<and> (MIN_WHALES_FOR_CONSENSUS x = 2 \<and> length ?ux = 2
            \<and> signalId mint 2 \<notin> alertedConsensus x
            \<longrightarrow> (\<exists>r. analyzeEnhancedWhaleConsensus g now q x = Inr r
                  \<and> ?cx \<in> set (drop (length (alerts x)) (alerts r))))
      \<and> (1 \<le> MIN_WHALES_FOR_CONSENSUS x \<longrightarrow>
           ((\<exists>c \<in> firedI now. WhaleConsensus.tokenMint c = mint)
              \<longleftrightarrow> MIN_WHALES_FOR_CONSENSUS x \<le> int (length ?ux)
                  \<and> signalId mint (length ?ux) \<notin> alertedConsensus x))
      \<and> (MIN_WHALES_FOR_CONSENSUS x = 2 \<and> length ?ux = 1
            \<longrightarrow> \<not> (\<exists>c \<in> firedI now. WhaleConsensus.tokenMint c = mint))
      \<and> (MIN_WHALES_FOR_CONSENSUS x = 2 \<and> length ?ux = 2
            \<and> signalId mint 2 \<notin> alertedConsensus x
            \<longrightarrow> ?cx \<in> firedI now)"
    if d: "distinct (map fst (recentWhalePurchases x))"
      and i: "(mint, purchases) \<in> set (recentWhalePurchases x)"
  proof -
    have ux: "?ux = firstPerWallet (filter (within_window now (consensusTimeWindow x)) purchases)"
      by (simp add: ux_def uniquePurchasesOf_firstPerWallet)
    have cx: "?cx = buildConsensus_enhanced (g mint) mint
                 (map (\<lambda>p. p\<lparr> amountUsd := js_mul (amountSol p) q \<rparr>)
                    (firstPerWallet
                       (filter (within_window now (consensusTimeWindow x)) purchases)))"
      by (simp add: cx_def uniquePurchasesOf_enhanced_firstPerWallet)
    note tf = enhanced_token_fired [OF d i, of _ now g q, folded ux cx]
    have fa: "c \<in> set (drop (length (alerts x)) (alerts r)) \<and> WhaleConsensus.tokenMint c = mint
       \<longleftrightarrow> MIN_WHALES_FOR_CONSENSUS x \<le> int (length ?ux) \<and> c = ?cx
           \<and> signalId mint (length ?ux) \<notin> alertedConsensus x"
      if "analyzeEnhancedWhaleConsensus g now q x = Inr r" for c r
      unfolding new_alerts_analyze_enhanced [OF d that] tf [of c, symmetric]
      by (auto simp: set_sortByStrength)
    have fi: "c \<in> firedI now \<and> WhaleConsensus.tokenMint c = mint
       \<longleftrightarrow> MIN_WHALES_FOR_CONSENSUS x \<le> int (length ?ux) \<and> c = ?cx
           \<and> signalId mint (length ?ux) \<notin> alertedConsensus x"
      if "1 \<le> MIN_WHALES_FOR_CONSENSUS x" for c
      unfolding firedI_def new_alerts_instant [OF d that] tf [of c, symmetric]
      by auto
    have ret: "\<exists>r. analyzeEnhancedWhaleConsensus g now q x = Inr r"
      if "1 \<le> MIN_WHALES_FOR_CONSENSUS x"
      using analyzeEnhanced_returns [of x g now q] that by blast
    have e1: "1 \<le> MIN_WHALES_FOR_CONSENSUS x \<longrightarrow>
        (\<exists>r. analyzeEnhancedWhaleConsensus g now q x = Inr r)"
      using ret by blast
    have e2: "analyzeEnhancedWhaleConsensus g now q x = Inr x' \<longrightarrow>
           ((\<exists>c \<in> set (drop (length (alerts x)) (alerts x')). WhaleConsensus.tokenMint c = mint)
              \<longleftrightarrow> MIN_WHALES_FOR_CONSENSUS x \<le> int (length ?ux)
                  \<and> signalId mint (length ?ux) \<notin> alertedConsensus x)"
      using fa [of x'] by blast
    have e3: "MIN_WHALES_FOR_CONSENSUS x = 2 \<and> length ?ux = 1
            \<longrightarrow> (\<exists>r. analyzeEnhancedWhaleConsensus g now q x = Inr r
                  \<and> \<not> (\<exists>c \<in> set (drop (length (alerts x)) (alerts r)).
                          WhaleConsensus.tokenMint c = mint))"
    proof (intro impI, elim conjE)
      assume k: "MIN_WHALES_FOR_CONSENSUS x = 2" and l: "length ?ux = 1"
      from k ret obtain r where r: "analyzeEnhancedWhaleConsensus g now q x = Inr r"
        by auto
      from fa [OF r] k l
      have "\<not> (\<exists>c \<in> set (drop (length (alerts x)) (alerts r)).
                 WhaleConsensus.tokenMint c = mint)"
        by auto
      with r show "\<exists>r. analyzeEnhancedWhaleConsensus g now q x = Inr r
                  \<and> \<not> (\<exists>c \<in> set (drop (length (alerts x)) (alerts r)).
                          WhaleConsensus.tokenMint c = mint)"
        by blast
    qed
    have e4: "MIN_WHALES_FOR_CONSENSUS x = 2 \<and> length ?ux = 2
            \<and> signalId mint 2 \<notin> alertedConsensus x
            \<longrightarrow> (\<exists>r. analyzeEnhancedWhaleConsensus g now q x = Inr r
                  \<and> ?cx \<in> set (drop (length (alerts x)) (alerts r)))"
    proof (intro impI, elim conjE)
      assume k: "MIN_WHALES_FOR_CONSENSUS x = 2" and l: "length ?ux = 2"
        and n: "signalId mint 2 \<notin> alertedConsensus x"
      from k ret obtain r where r: "analyzeEnhancedWhaleConsensus g now q x = Inr r"
        by auto
      from fa [OF r, of ?cx] k l n
      have "?cx \<in> set (drop (length (alerts x)) (alerts r))"
        by simp
      with r show "\<exists>r. analyzeEnhancedWhaleConsensus g now q x = Inr r
                  \<and> ?cx \<in> set (drop (length (alerts x)) (alerts r))"
        by blast
    qed
    have i2: "1 \<le> MIN_WHALES_FOR_CONSENSUS x \<longrightarrow>
           ((\<exists>c \<in> firedI now. WhaleConsensus.tokenMint c = mint)
              \<longleftrightarrow> MIN_WHALES_FOR_CONSENSUS x \<le> int (length ?ux)
                  \<and> signalId mint (length ?ux) \<notin> alertedConsensus x)"
      using fi by blast
    have i3: "MIN_WHALES_FOR_CONSENSUS x = 2 \<and> length ?ux = 1
            \<longrightarrow> \<not> (\<exists>c \<in> firedI now. WhaleConsensus.tokenMint c = mint)"
    proof (intro impI, elim conjE)
      assume k: "MIN_WHALES_FOR_CONSENSUS x = 2" and l: "length ?ux = 1"
      from k have "1 \<le> MIN_WHALES_FOR_CONSENSUS x"
        by simp
      from fi [OF this] k l show "\<not> (\<exists>c \<in> firedI now. WhaleConsensus.tokenMint c = mint)"
        by auto
    qed
    have i4: "MIN_WHALES_FOR_CONSENSUS x = 2 \<and> length ?ux = 2
            \<and> signalId mint 2 \<notin> alertedConsensus x
            \<longrightarrow> ?cx \<in> firedI now"
    proof (intro impI, elim conjE)
      assume k: "MIN_WHALES_FOR_CONSENSUS x = 2" and l: "length ?ux = 2"
        and n: "signalId mint 2 \<notin> alertedConsensus x"
      from k have "1 \<le> MIN_WHALES_FOR_CONSENSUS x"
        by simp
      from fi [OF this, of ?cx] k l n show "?cx \<in> firedI now"
        by simp
    qed
    from e1 e2 e3 e4 i2 i3 i4 show ?thesis
      by - (intro conjI, assumption+)
  qed
  have e: "consensusOfEntry_enhanced g now q w k (mint, purchases) = Inr []
         \<longleftrightarrow> \<not> k \<le> int (length (uniquePurchasesOf (filter (within_window now w) purchases)))"
    by (simp add: consensusOfEntry_enhanced_def Let_def uniquePurchasesOf_firstPerWallet
        uniquePurchasesOf_enhanced_firstPerWallet split: list.split)
  have bm: "?DM \<longrightarrow> ?B"
  proof (rule impI, elim conjE)
    assume "distinct (map fst (recentWhalePurchases m))"
      and "(mint, purchases) \<in> set (recentWhalePurchases m)"
    then show ?B
      by (rule base)
  qed
  have bx: "?DX \<longrightarrow> ?X"
  proof (rule impI, elim conjE)
    assume "distinct (map fst (recentWhalePurchases x))"
      and "(mint, purchases) \<in> set (recentWhalePurchases x)"
    then show ?X
      by (rule enh)
  qed
  from bm bx e show ?thesis
    by - (intro conjI, assumption+)
qed


theorem threshold_exact_witness:
  "distinct (map fst (recentWhalePurchases example_monitor))
   \<and> (''T'', [whale ''W1'' ''T'' (1/2) 0, whale ''W2'' ''T'' 1 300000])
        \<in> set (recentWhalePurchases example_monitor)
   \<and> MIN_WHALES_FOR_CONSENSUS example_monitor = 2
   \<and> signalId ''T'' 2 \<notin> alertedConsensus example_monitor
   \<and> length (uniquePurchasesOf (filter (within_window 302000
          (consensusTimeWindow example_monitor))
          [whale ''W1'' ''T'' (1/2) 0, whale ''W2'' ''T'' 1 300000])) = 2
   \<and> buildConsensus ''T'' [whale ''W1'' ''T'' (1/2) 0, whale ''W2'' ''T'' 1 300000]
        \<in> set (drop (length (alerts example_monitor))
                 (alerts (analyzeWhaleConsensus 302000 example_monitor)))
   \<and> length (uniquePurchasesOf (filter (within_window 1000000
          (consensusTimeWindow example_monitor))
          [whale ''W1'' ''T'' (1/2) 0, whale ''W2'' ''T'' 1 300000])) = 1
   \<and> \<not> (\<exists>c \<in> set (drop (length (alerts example_monitor))
                      (alerts (analyzeWhaleConsensus 1000000 example_monitor))).
          WhaleConsensus.tokenMint c = ''T'')
   \<and> distinct (map fst (recentWhalePurchases example_monitor_enhanced))
   \<and> (''T'', [whale ''W1'' ''T'' (1/2) 0, whale ''W2'' ''T'' 1 300000])
        \<in> set (recentWhalePurchases example_monitor_enhanced)
   \<and> MIN_WHALES_FOR_CONSENSUS example_monitor_enhanced = 2
   \<and> signalId ''T'' 2 \<notin> alertedConsensus example_monitor_enhanced
   \<and> length (uniquePurchasesOf (filter (within_window 302000
          (consensusTimeWindow example_monitor_enhanced))
          [whale ''W1'' ''T'' (1/2) 0, whale ''W2'' ''T'' 1 300000])) = 2
   \<and> (\<exists>r. analyzeEnhancedWhaleConsensus (\<lambda>_. None) 302000 150 example_monitor_enhanced = Inr r
         \<and> buildConsensus_enhanced None ''T''
              [(whale ''W1'' ''T'' (1/2) 0)\<lparr> amountUsd := 75 \<rparr>,
               (whale ''W2'' ''T'' 1 300000)\<lparr> amountUsd := 150 \<rparr>]
            \<in> set (drop (length (alerts example_monitor_enhanced)) (alerts r)))
   \<and> buildConsensus_enhanced None ''T''
        [(whale ''W1'' ''T'' (1/2) 0)\<lparr> amountUsd := 75 \<rparr>,
         (whale ''W2'' ''T'' 1 300000)\<lparr> amountUsd := 150 \<rparr>]
      \<in> set (drop (length (alerts example_monitor_enhanced))
               (alerts (instantEnhancedConsensusCheck (\<lambda>_. None) 302000 150
                  example_monitor_enhanced)))
   \<and> length (uniquePurchasesOf (filter (within_window 2000000
          (consensusTimeWindow example_monitor_enhanced))
          [whale ''W1'' ''T'' (1/2) 0, whale ''W2'' ''T'' 1 300000])) = 1
   \<and> (\<exists>r. analyzeEnhancedWhaleConsensus (\<lambda>_. None) 2000000 150 example_monitor_enhanced = Inr r
         \<and> \<not> (\<exists>c \<in> set (drop (length (alerts example_monitor_enhanced)) (alerts r)).
                 WhaleConsensus.tokenMint c = ''T''))
   \<and> \<not> (\<exists>c \<in> set (drop (length (alerts example_monitor_enhanced))
                      (alerts (instantEnhancedConsensusCheck (\<lambda>_. None) 2000000 150
                         example_monitor_enhanced))).
          WhaleConsensus.tokenMint c = ''T'')"
proof -
  let ?e1 = "whale ''W1'' ''T'' (1/2) 0" and ?e2 = "whale ''W2'' ''T'' 1 300000"
  have d: "distinct (map fst (recentWhalePurchases example_monitor))"
    and i: "(''T'', [?e1, ?e2]) \<in> set (recentWhalePurchases example_monitor)"
    and k: "MIN_WHALES_FOR_CONSENSUS example_monitor = 2"
    and n: "signalId ''T'' 2 \<notin> alertedConsensus example_monitor"
    by (simp_all add: example_monitor_eq new_monitor_def)
  have w: "consensusTimeWindow example_monitor = 900000"
    by (simp add: example_monitor_eq new_monitor_def)
  have u2: "uniquePurchasesOf (filter (within_window 302000 900000) [?e1, ?e2]) = [?e1, ?e2]"
    by (simp add: uniquePurchasesOf_firstPerWallet within_window_def whale_def)
  have u1: "uniquePurchasesOf (filter (within_window 1000000 900000) [?e1, ?e2]) = [?e2]"
    by (simp add: uniquePurchasesOf_firstPerWallet within_window_def whale_def)
  have dx: "distinct (map fst (recentWhalePurchases example_monitor_enhanced))"
    and ix: "(''T'', [?e1, ?e2]) \<in> set (recentWhalePurchases example_monitor_enhanced)"
    and kx: "MIN_WHALES_FOR_CONSENSUS example_monitor_enhanced = 2"
    and nx: "signalId ''T'' 2 \<notin> alertedConsensus example_monitor_enhanced"
    by (simp_all add: example_monitor_enhanced_eq new_monitor_enhanced_def)
  have wx: "consensusTimeWindow example_monitor_enhanced = 1800000"
    by (simp add: example_monitor_enhanced_eq new_monitor_enhanced_def)
  have x2: "uniquePurchasesOf (filter (within_window 302000 1800000) [?e1, ?e2]) = [?e1, ?e2]"
    by (simp add: uniquePurchasesOf_firstPerWallet within_window_def whale_def)
  have x1: "uniquePurchasesOf (filter (within_window 2000000 1800000) [?e1, ?e2]) = [?e2]"
    by (simp add: uniquePurchasesOf_firstPerWallet within_window_def whale_def)
  have c2: "uniquePurchasesOf_enhanced 150 (filter (within_window 302000 1800000) [?e1, ?e2])
      = [?e1\<lparr> amountUsd := 75 \<rparr>, ?e2\<lparr> amountUsd := 150 \<rparr>]"
    by (simp add: uniquePurchasesOf_enhanced_firstPerWallet within_window_def whale_def
        js_mul_examples)
  note t = threshold_exact [where m = example_monitor and x = example_monitor_enhanced
      and g = "\<lambda>_. None" and q = 150 and mint = "''T''" and purchases = "[?e1, ?e2]"
      and x' = example_monitor_enhanced and w = 0 and k = 0]
  note b2 = t [where now = 302000, THEN conjunct1, THEN mp, OF conjI [OF d i], unfolded w u2]
  note b1 = t [where now = 1000000, THEN conjunct1, THEN mp, OF conjI [OF d i], unfolded w u1]
  note e2 = t [where now = 302000, THEN conjunct2, THEN conjunct1, THEN mp, OF conjI [OF dx ix],
      unfolded wx x2 c2]
  note e1 = t [where now = 2000000, THEN conjunct2, THEN conjunct1, THEN mp,
      OF conjI [OF dx ix], unfolded wx x1]
  from b2 k n have f2: "buildConsensus ''T'' [?e1, ?e2]
        \<in> set (drop (length (alerts example_monitor))
                 (alerts (analyzeWhaleConsensus 302000 example_monitor)))"
    by simp
  from b1 k have f1: "\<not> (\<exists>c \<in> set (drop (length (alerts example_monitor))
                      (alerts (analyzeWhaleConsensus 1000000 example_monitor))).
          WhaleConsensus.tokenMint c = ''T'')"
    by simp
  from e2 kx nx have a2: "\<exists>r. analyzeEnhancedWhaleConsensus (\<lambda>_. None) 302000 150
           example_monitor_enhanced = Inr r
         \<and> buildConsensus_enhanced None ''T''
              [?e1\<lparr> amountUsd := 75 \<rparr>, ?e2\<lparr> amountUsd := 150 \<rparr>]
            \<in> set (drop (length (alerts example_monitor_enhanced)) (alerts r))"
    by simp
  from e2 kx nx have i2: "buildConsensus_enhanced None ''T''
        [?e1\<lparr> amountUsd := 75 \<rparr>, ?e2\<lparr> amountUsd := 150 \<rparr>]
      \<in> set (drop (length (alerts example_monitor_enhanced))
               (alerts (instantEnhancedConsensusCheck (\<lambda>_. None) 302000 150
                  example_monitor_enhanced)))"
    by simp
  from e1 kx have a1: "\<exists>r. analyzeEnhancedWhaleConsensus (\<lambda>_. None) 2000000 150
           example_monitor_enhanced = Inr r
         \<and> \<not> (\<exists>c \<in> set (drop (length (alerts example_monitor_enhanced)) (alerts r)).
                 WhaleConsensus.tokenMint c = ''T'')"
    by simp
  from e1 kx have i1: "\<not> (\<exists>c \<in> set (drop (length (alerts example_monitor_enhanced))
                      (alerts (instantEnhancedConsensusCheck (\<lambda>_. None) 2000000 150
                         example_monitor_enhanced))).
          WhaleConsensus.tokenMint c = ''T'')"
    by simp
  show ?thesis
    unfolding w u2 u1 wx x2 x1 using d i k n f2 f1 dx ix kx nx a2 i2 a1 i1 by simp
qed

section \<open>A failing wallet\<close>

lemma pollWallet_failed: "fetched poll = Inl e \<Longrightarrow> pollWallet poll m = m"
  by (simp add: pollWallet_def checkWalletForConsensus_def Let_def)

text \<open>
  C7: partial failure isolation. A wallet whose fetch fails leaves the state as it was, so
  the wallets polled before and after it are ingested, and the cycle ends, exactly as in
  the cycle without that wallet; a wallet polled after the failure has its purchases of at
  least \<^verbatim>\<open>MIN_PURCHASE_USD\<close> added to the windows. (In the witness the cycle with the failing
  wallet A alerts the consensus of B and C.)
\<close>

theorem partial_failure_isolation:
  assumes "fetched failing = Inl e"
  shows "pollWallet failing m = m
   \<and> foldl (\<lambda>m' poll. pollWallet poll m') m (before @ [failing] @ rest)
       = foldl (\<lambda>m' poll. pollWallet poll m') m (before @ rest)
   \<and> detectWhaleConsensus (before @ [failing] @ rest) analyzeTime b
       = detectWhaleConsensus (before @ rest) analyzeTime b
   \<and> (fetched other = Inr txs \<longrightarrow>
        pollWallet other (pollWallet failing m) =
          (if checkWalletForConsensus m (polledWallet other)
                (map_option name (find (\<lambda>w. address w = polledWallet other)
                                    (Monitor.manualWallets m))) (Inr txs) \<noteq> []
           then addPurchasesToConsensusTracking (trackedAt other)
                  (checkWalletForConsensus m (polledWallet other)
                     (map_option name (find (\<lambda>w. address w = polledWallet other)
                                         (Monitor.manualWallets m))) (Inr txs)) m
           else m))"
  by (simp add: pollWallet_failed [OF assms] detectWhaleConsensus_def)
     (simp add: pollWallet_def Let_def)

lemma pollB_tracked:
  "pollWallet pollB new_monitor
     = new_monitor\<lparr> recentWhalePurchases := [(''T'', [whale ''B'' ''T'' 1 1000])] \<rparr>"
  by (simp add: pollWallet_def checkWalletForConsensus_def Let_def pollB_def new_monitor_def
      List.map_filter_simps parseRealTokenPurchase_def SOL_PRICE_USD_def js_mul_examples
      addPurchasesToConsensusTracking_def track_purchase_def map_has_def within_window_def
      whale_def)

lemma pollC_tracked:
  "pollWallet pollC
     (new_monitor\<lparr> recentWhalePurchases := [(''T'', [whale ''B'' ''T'' 1 1000])] \<rparr>)
     = new_monitor\<lparr> recentWhalePurchases :=
         [(''T'', [whale ''B'' ''T'' 1 1000, whale ''C'' ''T'' 2 2000])] \<rparr>"
  by (simp add: pollWallet_def checkWalletForConsensus_def Let_def pollC_def new_monitor_def
      List.map_filter_simps parseRealTokenPurchase_def SOL_PRICE_USD_def js_mul_examples
      addPurchasesToConsensusTracking_def track_purchase_def map_has_def within_window_def
      whale_def)

lemma cycle_without_A:
  "alerts (detectWhaleConsensus [pollB, pollC] 4000 new_monitor)
     = [buildConsensus ''T'' [whale ''B'' ''T'' 1 1000, whale ''C'' ''T'' 2 2000]]"
proof -
  let ?s = "new_monitor\<lparr> recentWhalePurchases :=
         [(''T'', [whale ''B'' ''T'' 1 1000, whale ''C'' ''T'' 2 2000])] \<rparr>"
  have "analyzeWhaleConsensus 4000 ?s
      = ?s\<lparr> alertedConsensus := {''T_2''},
            alerts := [buildConsensus ''T'' [whale ''B'' ''T'' 1 1000, whale ''C'' ''T'' 2 2000]] \<rparr>"
    by (simp add: analyze_single [of _ "''T''" "[whale ''B'' ''T'' 1 1000, whale ''C'' ''T'' 2 2000]"]
        new_monitor_def within_window_def
        whale_def alertIfNew_def consensusId_def buildConsensus_totals signalId_T_Suc)
  then show ?thesis
    unfolding detectWhaleConsensus_def foldl.simps pollB_tracked pollC_tracked by simp
qed

theorem partial_failure_isolation_witness:
  "fetched pollA = Inl RpcFailure
   \<and> map signalOf (alerts (detectWhaleConsensus [pollA, pollB, pollC] 4000 new_monitor))
       = [(''T'', 2)]
   \<and> map walletAddress
        (concat (map whales (alerts (detectWhaleConsensus [pollA, pollB, pollC] 4000 new_monitor))))
       = [''B'', ''C'']"
proof -
  have f: "fetched pollA = Inl RpcFailure"
    by (simp add: pollA_def)
  from partial_failure_isolation [OF f, where before = "[]" and rest = "[pollB, pollC]"
      and analyzeTime = 4000 and b = new_monitor and m = new_monitor and other = pollB
      and txs = "[]"]
  have "detectWhaleConsensus [pollA, pollB, pollC] 4000 new_monitor
      = detectWhaleConsensus [pollB, pollC] 4000 new_monitor"
    by simp
  with f show ?thesis
    by (simp add: cycle_without_A signalOf_def buildConsensus_totals whale_def)
qed

end
